theory Spec2Isabelle
  imports Complex_Main "HOL-Library.Sublist"
begin

section \<open>Text\<close>

text \<open>
  The pipelines work on Python \<open>str\<close> values. A text is modelled as a \<open>string\<close>
  whose characters are read as the code points U+0000 .. U+00FF; every literal of the
  three scripts (the Spanish campus names included) lies in that range.  The character
  classes below are those of Python 3 on that range: \<open>is_space\<close> is
  \<open>str.isspace\<close> (also the regular expression class \<open>\s\<close>), \<open>is_word\<close> is the
  class \<open>\w\<close>, \<open>chr_lower\<close> is \<open>str.lower\<close> and \<open>chr_upper\<close> is
  \<open>str.upper\<close>.  The upper case of U+00DF is the two letters SS; the upper cases of
  U+00B5 and U+00FF lie beyond U+00FF and these two characters are kept as they are.
\<close>

abbreviation a_acute :: char where "a_acute \<equiv> CHR 0xE1"
abbreviation e_acute :: char where "e_acute \<equiv> CHR 0xE9"
abbreviation i_acute :: char where "i_acute \<equiv> CHR 0xED"
abbreviation o_acute :: char where "o_acute \<equiv> CHR 0xF3"

definition cp :: "char \<Rightarrow> nat" where
  "cp c = of_char c"

definition is_space :: "char \<Rightarrow> bool" where
  "is_space c = (let n = cp c in
     (9 \<le> n \<and> n \<le> 13) \<or> (28 \<le> n \<and> n \<le> 32) \<or> n = 133 \<or> n = 160)"

definition is_word :: "char \<Rightarrow> bool" where
  "is_word c = (let n = cp c in
     (48 \<le> n \<and> n \<le> 57) \<or> (65 \<le> n \<and> n \<le> 90) \<or> n = 95 \<or> (97 \<le> n \<and> n \<le> 122)
     \<or> n = 170 \<or> n = 178 \<or> n = 179 \<or> n = 181 \<or> n = 185 \<or> n = 186
     \<or> (188 \<le> n \<and> n \<le> 190) \<or> (192 \<le> n \<and> n \<le> 214) \<or> (216 \<le> n \<and> n \<le> 246)
     \<or> (248 \<le> n \<and> n \<le> 255))"

definition chr_lower :: "char \<Rightarrow> char" where
  "chr_lower c = (let n = cp c in
     if (65 \<le> n \<and> n \<le> 90) \<or> (192 \<le> n \<and> n \<le> 222 \<and> n \<noteq> 215)
     then char_of (n + 32) else c)"

definition chr_upper :: "char \<Rightarrow> string" where
  "chr_upper c = (let n = cp c in
     if (97 \<le> n \<and> n \<le> 122) \<or> (224 \<le> n \<and> n \<le> 254 \<and> n \<noteq> 247)
     then [char_of (n - 32)]
     else if n = 223 then ''SS'' else [c])"

definition lower :: "string \<Rightarrow> string" where
  "lower s = map chr_lower s"

definition upper :: "string \<Rightarrow> string" where
  "upper s = concat (map chr_upper s)"

definition strip :: "string \<Rightarrow> string" where
  "strip s = rev (dropWhile is_space (rev (dropWhile is_space s)))"

text \<open>\<open>contains s x\<close> is Python's \<open>x in s\<close> on texts: \<open>x\<close> occurs in \<open>s\<close> as a
  contiguous run.\<close>

fun contains :: "string \<Rightarrow> string \<Rightarrow> bool" where
  "contains [] x = (x = [])"
| "contains (c # cs) x = (prefix x (c # cs) \<or> contains cs x)"

section \<open>The campus tables\<close>

text \<open>Each script carries its own literal. A Python dict literal keeps the order in
  which it is written, so each table is an association list in source order.\<close>

definition CAMPUS_MAPPING_metrics :: "(string \<times> string) list" where
  "CAMPUS_MAPPING_metrics =
   [(''MTY'', ''Monterrey''),
    (''PUE'', ''Puebla''),
    (''GDL'', ''Guadalajara''),
    (''CDJ'', ''Cd. Ju'' @ [a_acute] @ ''rez''),
    (''TOL'', ''Toluca''),
    (''CCM'', ''Ciudad de M'' @ [e_acute] @ ''xico''),
    (''CEM'', ''Estado de M'' @ [e_acute] @ ''xico''),
    (''QRO'', ''Quer'' @ [e_acute] @ ''taro''),
    (''CHI'', ''Chihuahua''),
    (''SIN'', ''Sinaloa''),
    (''AGS'', ''Aguascalientes''),
    (''COB'', ''Cd. Obreg'' @ [o_acute] @ ''n''),
    (''LEO'', ''Le'' @ [o_acute] @ ''n''),
    (''LAG'', ''Laguna''),
    (''SON'', ''Sonora''),
    (''HGO'', ''Hidalgo''),
    (''SLP'', ''San Luis Potos'' @ [i_acute]),
    (''CVA'', ''Cuernavaca''),
    (''CSF'', ''Santa Fe''),
    (''SAL'', ''Saltillo'')]"

text \<open>The table of \<open>map_campus_name_to_id\<close>: display name first, code second.\<close>

definition CAMPUS_MAPPING_sdm :: "(string \<times> string) list" where
  "CAMPUS_MAPPING_sdm =
   [(''Monterrey'', ''MTY''),
    (''Puebla'', ''PUE''),
    (''Guadalajara'', ''GDL''),
    (''Ciudad Ju'' @ [a_acute] @ ''rez'', ''CDJ''),
    (''Toluca'', ''TOL''),
    (''Ciudad de M'' @ [e_acute] @ ''xico'', ''CCM''),
    (''Estado de M'' @ [e_acute] @ ''xico'', ''CEM''),
    (''Quer'' @ [e_acute] @ ''taro'', ''QRO''),
    (''Chihuahua'', ''CHI''),
    (''Sinaloa'', ''SIN''),
    (''Aguascalientes'', ''AGS''),
    (''Ciudad Obreg'' @ [o_acute] @ ''n'', ''COB''),
    (''Le'' @ [o_acute] @ ''n'', ''LEO''),
    (''Laguna'', ''LAG''),
    (''Sonora'', ''SON''),
    (''Hidalgo'', ''HGO''),
    (''San Luis Potos'' @ [i_acute], ''SLP''),
    (''Cuernavaca'', ''CVA''),
    (''Santa Fe'', ''CSF''),
    (''Saltillo'', ''SAL'')]"

text \<open>The module-level table of the schema module.\<close>

definition CAMPUS_MAPPING_schemas :: "(string \<times> string) list" where
  "CAMPUS_MAPPING_schemas =
   [(''MTY'', ''Monterrey''),
    (''PUE'', ''Puebla''),
    (''GDL'', ''Guadalajara''),
    (''CDJ'', ''Ciudad Ju'' @ [a_acute] @ ''rez''),
    (''TOL'', ''Toluca''),
    (''CCM'', ''Ciudad de M'' @ [e_acute] @ ''xico''),
    (''CEM'', ''Estado de M'' @ [e_acute] @ ''xico''),
    (''QRO'', ''Quer'' @ [e_acute] @ ''taro''),
    (''CHI'', ''Chihuahua''),
    (''SIN'', ''Sinaloa''),
    (''AGS'', ''Aguascalientes''),
    (''COB'', ''Ciudad Obreg'' @ [o_acute] @ ''n''),
    (''LEO'', ''Le'' @ [o_acute] @ ''n''),
    (''LAG'', ''Laguna''),
    (''SON'', ''Sonora''),
    (''HGO'', ''Hidalgo''),
    (''SLP'', ''San Luis Potos'' @ [i_acute]),
    (''CVA'', ''Cuernavaca''),
    (''CSF'', ''Santa Fe''),
    (''SAL'', ''Saltillo'')]"

text \<open>The members of the \<open>CampusID\<close> enumeration of the schema module.\<close>

definition CampusID :: "string list" where
  "CampusID =
   [''MTY'', ''PUE'', ''GDL'', ''CDJ'', ''TOL'', ''CCM'', ''CEM'', ''QRO'', ''CHI'', ''SIN'',
    ''AGS'', ''COB'', ''LEO'', ''LAG'', ''SON'', ''HGO'', ''SLP'', ''CVA'', ''CSF'', ''SAL'']"

section \<open>Score categories\<close>

fun categorize_score :: "int option \<Rightarrow> string option" where
  "categorize_score None = None"
| "categorize_score (Some score) =
     (if score \<le> 75 then Some ''deficiente''
      else if score \<le> 100 then Some ''regular''
      else if score \<le> 120 then Some ''satisfactorio''
      else if score \<le> 140 then Some ''sobresaliente''
      else Some ''excepcional'')"

text \<open>The rank of a category label, in the order of the threshold table; the missing
  category of a missing score ranks below all labels.\<close>

definition category_rank :: "string option \<Rightarrow> nat" where
  "category_rank c =
     (if c = Some ''deficiente'' then 1
      else if c = Some ''regular'' then 2
      else if c = Some ''satisfactorio'' then 3
      else if c = Some ''sobresaliente'' then 4
      else if c = Some ''excepcional'' then 5
      else 0)"

section \<open>Campus resolution of the metrics pipeline\<close>

text \<open>
  \<open>re.search(r'\((\w+)\)', region)\<close>: the leftmost place where an opening
  parenthesis, one or more word characters and a closing parenthesis follow each other.
  A closing parenthesis is no word character, so the greedy run of word characters is the
  only candidate at each place. The result is group 1.
\<close>

definition match_paren_at :: "string \<Rightarrow> string option" where
  "match_paren_at s =
     (case s of
        [] \<Rightarrow> None
      | c # r \<Rightarrow>
          if c = CHR ''(''
             \<and> takeWhile is_word r \<noteq> []
             \<and> (case dropWhile is_word r of [] \<Rightarrow> False | d # _ \<Rightarrow> d = CHR '')'')
          then Some (takeWhile is_word r)
          else None)"

fun search_paren :: "string \<Rightarrow> string option" where
  "search_paren [] = None"
| "search_paren (c # cs) =
     (case match_paren_at (c # cs) of
        Some g \<Rightarrow> Some g
      | None \<Rightarrow> search_paren cs)"

definition extract_campus_from_region :: "string \<Rightarrow> string \<times> string" where
  "extract_campus_from_region region =
     (case search_paren region of
        Some g \<Rightarrow>
          (let campus_id = upper g
           in (campus_id,
               case map_of CAMPUS_MAPPING_metrics campus_id of
                 Some name \<Rightarrow> name
               | None \<Rightarrow> campus_id))
      | None \<Rightarrow>
          (case find (\<lambda>(code, name). contains (upper region) code) CAMPUS_MAPPING_metrics of
             Some (code, name) \<Rightarrow> (code, name)
           | None \<Rightarrow>
               (case find (\<lambda>(code, name). contains (lower region) (lower name))
                       CAMPUS_MAPPING_metrics of
                  Some (code, name) \<Rightarrow> (code, name)
                | None \<Rightarrow>
                    (if length region \<ge> 3 then upper (take 3 region) else ''UNK'',
                     region))))"

section \<open>The metrics merge\<close>

text \<open>
  A metrics line is a JSON object. Its \<open>REGION\<close> is a text and may be absent; each
  counter may be absent and otherwise holds a JSON value that the merge copies without
  looking at it.
\<close>

datatype jval = JInt int | JFloat rat | JNull

record metrics_line =
  REGION :: "string option"
  POST_COMMENTS__SUM :: "jval option"
  ALCANCE_TOTAL :: "jval option"
  VOLUMEN_DE_PUBLICACIONES :: "jval option"
  INTERACCIONES_TOTALES :: "jval option"

record period_metrics =
  post_comments_sum :: jval
  alcance_total :: jval
  volumen_de_publicaciones :: jval
  interacciones_totales :: jval

record region_combined =
  campus_id :: string
  campus_name :: string
  current_month :: period_metrics
  previous_year_month :: period_metrics

datatype error = KeyError

text \<open>\<open>d.get(key, default)\<close> on a field that may be absent.\<close>

definition get_or :: "'a option \<Rightarrow> 'a \<Rightarrow> 'a" where
  "get_or field dflt = (case field of Some v \<Rightarrow> v | None \<Rightarrow> dflt)"

text \<open>
  \<open>{item['REGION']: item for item in previous_data}\<close>: the items are taken in
  order, a later item replaces an earlier one of the same text, and an item without
  \<open>REGION\<close> raises \<open>KeyError\<close>.
\<close>

fun previous_lookup_from ::
  "(string \<rightharpoonup> metrics_line) \<Rightarrow> metrics_line list \<Rightarrow> error + (string \<rightharpoonup> metrics_line)" where
  "previous_lookup_from m [] = Inr m"
| "previous_lookup_from m (item # items) =
     (case REGION item of
        None \<Rightarrow> Inl KeyError
      | Some r \<Rightarrow> previous_lookup_from (m(r \<mapsto> item)) items)"

definition metrics_of :: "metrics_line \<Rightarrow> period_metrics" where
  "metrics_of line =
     \<lparr>post_comments_sum = get_or (POST_COMMENTS__SUM line) (JInt 0),
      alcance_total = get_or (ALCANCE_TOTAL line) (JFloat 0),
      volumen_de_publicaciones = get_or (VOLUMEN_DE_PUBLICACIONES line) (JInt 0),
      interacciones_totales = get_or (INTERACCIONES_TOTALES line) (JInt 0)\<rparr>"

definition zero_metrics :: period_metrics where
  "zero_metrics =
     \<lparr>post_comments_sum = JInt 0,
      alcance_total = JFloat 0,
      volumen_de_publicaciones = JInt 0,
      interacciones_totales = JInt 0\<rparr>"

text \<open>The body of the loop over the current lines. A line found in the lookup carries
  \<open>REGION\<close>, so it is a non-empty dict and the test \<open>if previous\<close> succeeds.\<close>

definition combine_region :: "(string \<rightharpoonup> metrics_line) \<Rightarrow> metrics_line \<Rightarrow> region_combined" where
  "combine_region previous_lookup current =
     (let region_str = get_or (REGION current) '''';
          (cid, cname) = extract_campus_from_region region_str;
          previous = previous_lookup region_str;
          current_metrics = metrics_of current;
          previous_metrics = (case previous of
                                Some p \<Rightarrow> metrics_of p
                              | None \<Rightarrow> zero_metrics)
      in \<lparr>campus_id = cid, campus_name = cname,
          current_month = current_metrics, previous_year_month = previous_metrics\<rparr>)"

text \<open>\<open>process_metrics\<close> on the parsed lines of the two files; the result is the
  \<open>regions\<close> list of the document it writes.  The summary that the script prints
  after writing is left out.\<close>

definition process_metrics :: "metrics_line list \<Rightarrow> metrics_line list \<Rightarrow> error + region_combined list" where
  "process_metrics current_data previous_data =
     (case previous_lookup_from Map.empty previous_data of
        Inl e \<Rightarrow> Inl e
      | Inr previous_lookup \<Rightarrow> Inr (map (combine_region previous_lookup) current_data))"

section \<open>The publications pipeline\<close>

text \<open>
  A raw publication is a JSON object whose texts may be absent and whose two counters
  are integers, absent or null (\<open>None\<close> stands for both: the script reads them with
  \<open>pub.get(key, 0) or 0\<close>).  The record written out has the same keys, in lower case
  here, and the engagement score.
\<close>

record raw_publication =
  ACCOUNT :: "string option"
  SOCIAL_NETWORK :: "string option"
  INTERACCIONES_GENERAL__SUM :: "int option"
  ALCANCE_GENERAL__SUM :: "int option"
  PUBLISHEDTIME :: "string option"
  OUTBOUND_POST :: "string option"

record filtered_pub =
  publishedtime :: string
  social_network :: string
  interacciones_general_sum :: int
  account :: string
  alcance_general_sum :: int
  outbound_post :: string
  engagement_score :: int

text \<open>The object written for one campus; its key \<open>campus_id\<close> is the field
  \<open>group_campus_id\<close>, the plain name being the field of the metrics entry.\<close>

record campus_group =
  group_campus_id :: string
  publications :: "filtered_pub list"

text \<open>
  \<open>re.search(r'Campus\s+(\w+)\s+\[', account, re.IGNORECASE)\<close>: the leftmost place
  where the word \<open>campus\<close> in any case, a run of spaces, a run of word characters, a
  run of spaces and an opening bracket follow each other. Spaces, word characters and the
  bracket are disjoint classes, so the greedy runs are the only candidate at each place.
\<close>

definition match_campus_at :: "string \<Rightarrow> string option" where
  "match_campus_at s =
     (let r1 = drop 6 s;
          r2 = dropWhile is_space r1;
          g = takeWhile is_word r2;
          r3 = dropWhile is_word r2;
          r4 = dropWhile is_space r3
      in if lower (take 6 s) = ''campus''
            \<and> takeWhile is_space r1 \<noteq> []
            \<and> g \<noteq> []
            \<and> takeWhile is_space r3 \<noteq> []
            \<and> (case r4 of [] \<Rightarrow> False | d # _ \<Rightarrow> d = CHR ''['')
         then Some g else None)"

fun search_campus :: "string \<Rightarrow> string option" where
  "search_campus [] = None"
| "search_campus (c # cs) =
     (case match_campus_at (c # cs) of
        Some g \<Rightarrow> Some g
      | None \<Rightarrow> search_campus cs)"

text \<open>
  A \<open>defaultdict\<close> keeps its keys in the order of their first use.  \<open>dd_update k f d0\<close>
  is the effect of changing \<open>d[k]\<close> by \<open>f\<close> in place, where a key not yet present
  starts from the default \<open>d0\<close> and is added at the end.
\<close>

fun dd_update :: "'k \<Rightarrow> ('v \<Rightarrow> 'v) \<Rightarrow> 'v \<Rightarrow> ('k \<times> 'v) list \<Rightarrow> ('k \<times> 'v) list" where
  "dd_update k f d0 [] = [(k, f d0)]"
| "dd_update k f d0 ((k', v) # rest) =
     (if k' = k then (k', f v) # rest else (k', v) # dd_update k f d0 rest)"

type_synonym platform_posts = "(string \<times> filtered_pub list) list"
type_synonym campus_platform_posts = "(string \<times> platform_posts) list"

text \<open>The body of the first loop: one raw publication is filed under its campus and
  platform, or skipped.\<close>

definition group_publication :: "campus_platform_posts \<Rightarrow> raw_publication \<Rightarrow> campus_platform_posts" where
  "group_publication campus_platform_posts pub =
     (let account = get_or (ACCOUNT pub) '''';
          social_network = lower (get_or (SOCIAL_NETWORK pub) '''')
      in case search_campus account of
           None \<Rightarrow> campus_platform_posts
         | Some g \<Rightarrow>
             (let campus_id = upper g;
                  interactions = get_or (INTERACCIONES_GENERAL__SUM pub) 0;
                  alcance = get_or (ALCANCE_GENERAL__SUM pub) 0;
                  engagement_score = (interactions * 10) + alcance;
                  filtered_pub =
                    \<lparr>publishedtime = get_or (PUBLISHEDTIME pub) '''',
                     social_network = get_or (SOCIAL_NETWORK pub) '''',
                     interacciones_general_sum = interactions,
                     account = get_or (ACCOUNT pub) '''',
                     alcance_general_sum = alcance,
                     outbound_post = get_or (OUTBOUND_POST pub) '''',
                     engagement_score = engagement_score\<rparr>
              in if contains social_network ''instagram''
                 then dd_update campus_id
                        (dd_update ''instagram'' (\<lambda>posts. posts @ [filtered_pub]) []) []
                        campus_platform_posts
                 else if contains social_network ''facebook''
                 then dd_update campus_id
                        (dd_update ''facebook'' (\<lambda>posts. posts @ [filtered_pub]) []) []
                        campus_platform_posts
                 else campus_platform_posts))"

definition platform_limits :: "(string \<times> nat) list" where
  "platform_limits = [(''instagram'', 4), (''facebook'', 4)]"

text \<open>
  \<open>sorted(posts, key=lambda x: x['engagement_score'], reverse=True)\<close>: Python's sort
  is stable and \<open>reverse=True\<close> keeps the original order of equal keys, which is the
  stable ascending sort on the negated score.
\<close>

definition sorted_posts :: "filtered_pub list \<Rightarrow> filtered_pub list" where
  "sorted_posts posts = sort_key (\<lambda>x. - engagement_score x) posts"

text \<open>The body of the second loop for one campus.\<close>

definition campus_output :: "string \<times> platform_posts \<Rightarrow> campus_group" where
  "campus_output entry =
     (case entry of (cid, platforms) \<Rightarrow>
        \<lparr>group_campus_id = cid,
         publications =
           concat (map (\<lambda>(platform, posts).
                     let limit = get_or (map_of platform_limits platform) 0
                     in if limit > 0 then take limit (sorted_posts posts) else [])
                   platforms)\<rparr>)"

text \<open>\<open>filter_publications\<close> on the parsed lines of the input file; the result is the
  list of objects it writes, one per line.\<close>

definition filter_publications :: "raw_publication list \<Rightarrow> campus_group list" where
  "filter_publications publications_data =
     map campus_output (foldl group_publication [] publications_data)"

section \<open>The score table parser\<close>

text \<open>A score-set is a dict from key to cell; a cell is a score or a category, each of
  which may be null.\<close>

datatype cell = Score "int option" | Categoria "string option"

type_synonym score_set = "(string \<times> cell) list"

text \<open>The entry of one campus; its keys \<open>campus_id\<close> and \<open>campus_name\<close> are
  the fields \<open>sc_campus_id\<close> and \<open>sc_campus_name\<close>.\<close>

record campus_scores =
  sc_campus_id :: string
  sc_campus_name :: string
  facebook :: score_set
  twitter :: score_set
  instagram :: score_set
  totales :: score_set

record parser_state =
  campuses :: "campus_scores list"
  current_campus :: "campus_scores option"
  current_platform :: "string option"

definition map_campus_name_to_id :: "string \<Rightarrow> string" where
  "map_campus_name_to_id cname =
     (case find (\<lambda>(full_name, code). contains (lower cname) (lower full_name))
             CAMPUS_MAPPING_sdm of
        Some (full_name, code) \<Rightarrow> code
      | None \<Rightarrow> upper (take 3 cname))"

definition normalize_score_name :: "string \<Rightarrow> string" where
  "normalize_score_name score_name =
     get_or (map_of [(''visibilidad'', ''visibilidad''),
                     (''resonancia'', ''resonancia''),
                     (''permanencia'', ''permanencia''),
                     (''sentimiento'', ''sentimiento''),
                     (''salud de marca'', ''salud_de_marca'')] (lower score_name))
            score_name"

text \<open>
  \<open>int(text)\<close> in base ten: white space around the text is dropped, then come an
  optional sign and digits, where single underscores may stand between digits. Anything
  else raises \<open>ValueError\<close>, here \<open>None\<close>.  The white space that \<open>int\<close> drops
  is that of \<open>str.isspace\<close> without the four separators U+001C .. U+001F.  (The limit
  that recent interpreters put on the number of digits is not modelled.)
\<close>

definition is_int_space :: "char \<Rightarrow> bool" where
  "is_int_space c = (let n = cp c in (9 \<le> n \<and> n \<le> 13) \<or> n = 32 \<or> n = 133 \<or> n = 160)"

definition is_digit :: "char \<Rightarrow> bool" where
  "is_digit c = (48 \<le> cp c \<and> cp c \<le> 57)"

definition digit_val :: "char \<Rightarrow> nat" where
  "digit_val c = cp c - 48"

fun int_digits :: "string \<Rightarrow> nat \<Rightarrow> nat option" where
  "int_digits [] acc = Some acc"
| "int_digits [c] acc = (if is_digit c then Some (10 * acc + digit_val c) else None)"
| "int_digits (c # d # ds) acc =
     (if is_digit c then int_digits (d # ds) (10 * acc + digit_val c)
      else if c = CHR ''_'' \<and> is_digit d then int_digits ds (10 * acc + digit_val d)
      else None)"

definition py_int :: "string \<Rightarrow> int option" where
  "py_int s =
     (let t = rev (dropWhile is_int_space (rev (dropWhile is_int_space s)));
          neg = (case t of [] \<Rightarrow> False | c # _ \<Rightarrow> c = CHR ''-'');
          body = (case t of [] \<Rightarrow> [] | c # r \<Rightarrow> if c = CHR ''-'' \<or> c = CHR ''+'' then r else t)
      in case body of
           [] \<Rightarrow> None
         | d # ds \<Rightarrow>
             if is_digit d
             then map_option (\<lambda>n. if neg then - int n else int n) (int_digits ds (digit_val d))
             else None)"

definition parse_score :: "string \<Rightarrow> int option" where
  "parse_score v =
     (if v = [] \<or> lower v = ''calificaciones'' then None
      else py_int (filter (\<lambda>c. c \<noteq> CHR '','') v))"

text \<open>\<open>d[key] = v\<close> on a plain dict: a key already present keeps its place.\<close>

definition dict_set :: "'k \<Rightarrow> 'v \<Rightarrow> ('k \<times> 'v) list \<Rightarrow> ('k \<times> 'v) list" where
  "dict_set k v d = dd_update k (\<lambda>_. v) v d"

text \<open>\<open>current_campus[current_platform][key] = v\<close>, where the platform is one of the
  four names the parser can have stored.\<close>

definition set_cell :: "string \<Rightarrow> string \<Rightarrow> cell \<Rightarrow> campus_scores \<Rightarrow> campus_scores" where
  "set_cell platform key v c =
     (if platform = ''facebook'' then c\<lparr>facebook := dict_set key v (facebook c)\<rparr>
      else if platform = ''twitter'' then c\<lparr>twitter := dict_set key v (twitter c)\<rparr>
      else if platform = ''instagram'' then c\<lparr>instagram := dict_set key v (instagram c)\<rparr>
      else c\<lparr>totales := dict_set key v (totales c)\<rparr>)"

text \<open>The body of the loop over the rows of the CSV reader; a row is the list of its
  cells.\<close>

definition parse_row :: "parser_state \<Rightarrow> string list \<Rightarrow> parser_state" where
  "parse_row st row =
     (if length row < 2 then st
      else
        let left_col = lower (strip (row ! 0));
            right_col = strip (row ! 1)
        in if left_col = ''campus'' then
             st\<lparr>campuses := (case current_campus st of
                                Some c \<Rightarrow> campuses st @ [c]
                              | None \<Rightarrow> campuses st),
                current_campus :=
                  Some \<lparr>sc_campus_id = map_campus_name_to_id right_col,
                        sc_campus_name = right_col,
                        facebook = [], twitter = [], instagram = [], totales = []\<rparr>,
                current_platform := None\<rparr>
           else if left_col \<in> set [''facebook'', ''twitter'', ''instagram'', ''totales''] then
             st\<lparr>current_platform := Some left_col\<rparr>
           else if left_col \<in> set [''visibilidad'', ''resonancia'', ''permanencia'',
                                     ''sentimiento'', ''salud de marca''] then
             (let score_type = normalize_score_name left_col;
                  score_value = parse_score right_col;
                  category = categorize_score score_value
              in case (current_platform st, current_campus st) of
                   (Some p, Some c) \<Rightarrow>
                     st\<lparr>current_campus :=
                          Some (set_cell p (score_type @ ''_categoria'') (Categoria category)
                                  (set_cell p score_type (Score score_value) c))\<rparr>
                 | _ \<Rightarrow> st)
           else st)"

text \<open>\<open>parse_campus_scores_csv\<close> on the rows of the file; the result is the
  \<open>campuses\<close> list of the document it writes.\<close>

definition parse_campus_scores_csv :: "string list list \<Rightarrow> campus_scores list" where
  "parse_campus_scores_csv rows =
     (let st = foldl parse_row \<lparr>campuses = [], current_campus = None, current_platform = None\<rparr> rows
      in case current_campus st of
           Some c \<Rightarrow> campuses st @ [c]
         | None \<Rightarrow> campuses st)"

section \<open>Notions used to state the properties of the score table parser\<close>

text \<open>The rows that the parser takes as campus headers, and the rows whose first cell
  reads \<open>campus\<close> whatever their number of cells.\<close>

definition is_campus_row :: "string list \<Rightarrow> bool" where
  "is_campus_row row = (length row \<ge> 2 \<and> lower (strip (row ! 0)) = ''campus'')"

definition left_is_campus :: "string list \<Rightarrow> bool" where
  "left_is_campus row = (case row of [] \<Rightarrow> False | left # _ \<Rightarrow> lower (strip left) = ''campus'')"

text \<open>The campuses that a parser state holds: the completed ones and then the one in
  progress.\<close>

definition held :: "parser_state \<Rightarrow> campus_scores list" where
  "held st = campuses st @ (case current_campus st of Some c \<Rightarrow> [c] | None \<Rightarrow> [])"

section \<open>Notions used to state the properties of the publications pipeline\<close>

text \<open>The three things the first loop computes from one raw publication: the campus
  under which it is filed, the platform under which it is filed, and the record that is
  kept.  A publication is kept when it has both a campus and a platform.\<close>

definition campus_of :: "raw_publication \<Rightarrow> string option" where
  "campus_of pub = map_option upper (search_campus (get_or (ACCOUNT pub) ''''))"

definition platform_of_network :: "string \<Rightarrow> string option" where
  "platform_of_network network =
     (if contains (lower network) ''instagram'' then Some ''instagram''
      else if contains (lower network) ''facebook'' then Some ''facebook''
      else None)"

definition platform_of :: "raw_publication \<Rightarrow> string option" where
  "platform_of pub = platform_of_network (get_or (SOCIAL_NETWORK pub) '''')"

definition filtered_of :: "raw_publication \<Rightarrow> filtered_pub" where
  "filtered_of pub =
     \<lparr>publishedtime = get_or (PUBLISHEDTIME pub) '''',
      social_network = get_or (SOCIAL_NETWORK pub) '''',
      interacciones_general_sum = get_or (INTERACCIONES_GENERAL__SUM pub) 0,
      account = get_or (ACCOUNT pub) '''',
      alcance_general_sum = get_or (ALCANCE_GENERAL__SUM pub) 0,
      outbound_post = get_or (OUTBOUND_POST pub) '''',
      engagement_score = get_or (INTERACCIONES_GENERAL__SUM pub) 0 * 10
                         + get_or (ALCANCE_GENERAL__SUM pub) 0\<rparr>"

definition is_kept :: "raw_publication \<Rightarrow> bool" where
  "is_kept pub = (campus_of pub \<noteq> None \<and> platform_of pub \<noteq> None)"

text \<open>The kept records of a campus on a platform, in input order, and the platforms of
  the kept records of a campus, in input order.\<close>

definition kept_of :: "raw_publication list \<Rightarrow> string \<Rightarrow> string \<Rightarrow> filtered_pub list" where
  "kept_of publications_data c p =
     map filtered_of
       (filter (\<lambda>pub. campus_of pub = Some c \<and> platform_of pub = Some p) publications_data)"

definition platforms_of :: "raw_publication list \<Rightarrow> string \<Rightarrow> string list" where
  "platforms_of publications_data c =
     map (\<lambda>pub. the (platform_of pub))
       (filter (\<lambda>pub. campus_of pub = Some c \<and> platform_of pub \<noteq> None) publications_data)"

text \<open>The best records of a list: at most four, by descending score.\<close>

definition top_posts :: "filtered_pub list \<Rightarrow> filtered_pub list" where
  "top_posts posts = take 4 (sorted_posts posts)"

text \<open>The records of one platform within a list of written records, told by their
  \<open>SOCIAL_NETWORK\<close> as the first loop tells them.\<close>

definition on_platform :: "string \<Rightarrow> filtered_pub list \<Rightarrow> filtered_pub list" where
  "on_platform p posts = filter (\<lambda>x. platform_of_network (social_network x) = Some p) posts"

text \<open>The keys of a list in the order of their first occurrence.\<close>

fun first_seen :: "'a list \<Rightarrow> 'a list" where
  "first_seen [] = []"
| "first_seen (x # xs) = x # filter (\<lambda>y. y \<noteq> x) (first_seen xs)"

text \<open>The kept publications as entries (campus, (platform, record)), in input order.\<close>

definition entries :: "raw_publication list \<Rightarrow> (string \<times> string \<times> filtered_pub) list" where
  "entries publications_data =
     map (\<lambda>pub. (the (campus_of pub), the (platform_of pub), filtered_of pub))
       (filter is_kept publications_data)"

text \<open>Filing one entry, as the first loop does for a kept publication.\<close>

definition file_post :: "string \<times> filtered_pub \<Rightarrow> platform_posts \<Rightarrow> platform_posts" where
  "file_post e = dd_update (fst e) (\<lambda>posts. posts @ [snd e]) []"

definition file_entry :: "campus_platform_posts \<Rightarrow> string \<times> string \<times> filtered_pub \<Rightarrow> campus_platform_posts" where
  "file_entry d e = dd_update (fst e) (file_post (snd e)) [] d"

section \<open>Example inputs\<close>

text \<open>An input in which the first kept publication of campus GDL is a Facebook post and
  the second an Instagram post.\<close>

definition facebook_first :: "raw_publication list" where
  "facebook_first =
     [\<lparr>ACCOUNT = Some ''Campus GDL [FB]'', SOCIAL_NETWORK = Some ''Facebook'',
       INTERACCIONES_GENERAL__SUM = Some 1, ALCANCE_GENERAL__SUM = Some 0,
       PUBLISHEDTIME = None, OUTBOUND_POST = None\<rparr>,
      \<lparr>ACCOUNT = Some ''Campus GDL [IG]'', SOCIAL_NETWORK = Some ''Instagram'',
       INTERACCIONES_GENERAL__SUM = Some 2, ALCANCE_GENERAL__SUM = Some 0,
       PUBLISHEDTIME = None, OUTBOUND_POST = None\<rparr>]"

text \<open>Six Instagram posts of campus GDL with the scores 10, 50, 30, 50, 40 and 30,
  labelled a to f in their outbound post.\<close>

definition instagram_post :: "string \<Rightarrow> int \<Rightarrow> raw_publication" where
  "instagram_post label n =
     \<lparr>ACCOUNT = Some ''Campus GDL [IG]'', SOCIAL_NETWORK = Some ''Instagram'',
      INTERACCIONES_GENERAL__SUM = Some 0, ALCANCE_GENERAL__SUM = Some n,
      PUBLISHEDTIME = None, OUTBOUND_POST = Some label\<rparr>"

definition six_instagram :: "raw_publication list" where
  "six_instagram =
     [instagram_post ''a'' 10, instagram_post ''b'' 50, instagram_post ''c'' 30,
      instagram_post ''d'' 50, instagram_post ''e'' 40, instagram_post ''f'' 30]"

text \<open>A post on another platform for campus MTY, a post whose account names no campus,
  and an Instagram post for campus GDL.\<close>

definition mixed_input :: "raw_publication list" where
  "mixed_input =
     [\<lparr>ACCOUNT = Some ''Campus MTY [TW]'', SOCIAL_NETWORK = Some ''Twitter'',
       INTERACCIONES_GENERAL__SUM = Some 9, ALCANCE_GENERAL__SUM = Some 9,
       PUBLISHEDTIME = None, OUTBOUND_POST = None\<rparr>,
      \<lparr>ACCOUNT = Some ''Rectoria'', SOCIAL_NETWORK = Some ''Facebook'',
       INTERACCIONES_GENERAL__SUM = Some 9, ALCANCE_GENERAL__SUM = Some 9,
       PUBLISHEDTIME = None, OUTBOUND_POST = None\<rparr>,
      instagram_post ''g'' 5]"

section \<open>Properties of the score categories and the campus tables\<close>

text \<open>
  Claim C4. \<open>categorize_score\<close> follows the threshold table: a missing score has no
  category; a score up to 75 is deficiente, from 76 to 100 regular, from 101 to 120
  satisfactorio, from 121 to 140 sobresaliente and from 141 on excepcional.  Hence a larger
  score never has a category of lower rank.
\<close>

theorem categorize_score_table_monotone:
  "categorize_score None = None
   \<and> (\<forall>s. categorize_score (Some s) =
          Some (if s \<le> 75 then ''deficiente''
                else if 76 \<le> s \<and> s \<le> 100 then ''regular''
                else if 101 \<le> s \<and> s \<le> 120 then ''satisfactorio''
                else if 121 \<le> s \<and> s \<le> 140 then ''sobresaliente''
                else ''excepcional''))
   \<and> (\<forall>s. s \<ge> 141 \<longrightarrow> categorize_score (Some s) = Some ''excepcional'')
   \<and> (\<forall>s1 s2. s1 < s2 \<longrightarrow>
          category_rank (categorize_score (Some s1)) \<le> category_rank (categorize_score (Some s2)))"
  by (simp add: category_rank_def)

theorem categorize_score_table_monotone_witness:
  "(140::int) < 141
   \<and> categorize_score (Some 140) = Some ''sobresaliente''
   \<and> categorize_score (Some 141) = Some ''excepcional''
   \<and> category_rank (categorize_score (Some 140)) \<le> category_rank (categorize_score (Some 141))"
proof -
  have "(140::int) < 141 \<longrightarrow>
          category_rank (categorize_score (Some 140)) \<le> category_rank (categorize_score (Some 141))"
    using categorize_score_table_monotone by blast
  then show ?thesis by simp
qed

text \<open>
  Claim C2 says that the three literals give every code the same display name.  The
  literal of the metrics script gives the codes CDJ and COB the names with the short form
  \<open>Cd.\<close>, where the literals of the scores script and of the schema module spell
  \<open>Ciudad\<close>.  The scores literal, turned around, is the schema literal, and the metrics
  literal agrees with it on the other 18 codes.
\<close>

theorem metrics_table_differs_from_the_others:
  "map_of CAMPUS_MAPPING_metrics ''CDJ'' = Some (''Cd. Ju'' @ [a_acute] @ ''rez'')
   \<and> map_of CAMPUS_MAPPING_schemas ''CDJ'' = Some (''Ciudad Ju'' @ [a_acute] @ ''rez'')
   \<and> map_of (map (\<lambda>(name, code). (code, name)) CAMPUS_MAPPING_sdm) ''CDJ''
       = Some (''Ciudad Ju'' @ [a_acute] @ ''rez'')
   \<and> map_of CAMPUS_MAPPING_metrics ''CDJ'' \<noteq> map_of CAMPUS_MAPPING_schemas ''CDJ''
   \<and> map_of CAMPUS_MAPPING_metrics ''COB'' \<noteq> map_of CAMPUS_MAPPING_schemas ''COB''
   \<and> map (\<lambda>(name, code). (code, name)) CAMPUS_MAPPING_sdm = CAMPUS_MAPPING_schemas
   \<and> filter (\<lambda>(code, name). code \<noteq> ''CDJ'' \<and> code \<noteq> ''COB'') CAMPUS_MAPPING_metrics
       = filter (\<lambda>(code, name). code \<noteq> ''CDJ'' \<and> code \<noteq> ''COB'') CAMPUS_MAPPING_schemas"
  by (simp add: CAMPUS_MAPPING_metrics_def CAMPUS_MAPPING_schemas_def CAMPUS_MAPPING_sdm_def)

section \<open>Properties of the campus resolution\<close>

text \<open>
  Claim C7. Each of the 20 display names of the metrics table, given alone, has no
  parenthesized token and resolves to its own code and to itself, also where a code is
  found inside the upper-cased name before the names are tried.
\<close>

theorem known_display_names_resolve:
  "\<forall>(code, name) \<in> set CAMPUS_MAPPING_metrics.
     search_paren name = None \<and> extract_campus_from_region name = (code, name)"
proof -
  have "list_all (\<lambda>(code, name).
            search_paren name = None \<and> extract_campus_from_region name = (code, name))
          CAMPUS_MAPPING_metrics"
    by code_simp
  then show ?thesis by (simp only: list_all_iff)
qed

theorem known_display_names_resolve_witness:
  "(''SIN'', ''Sinaloa'') \<in> set CAMPUS_MAPPING_metrics
   \<and> contains (upper ''Sinaloa'') ''SIN''
   \<and> extract_campus_from_region ''Sinaloa'' = (''SIN'', ''Sinaloa'')"
proof -
  have h: "(''SIN'', ''Sinaloa'') \<in> set CAMPUS_MAPPING_metrics"
    by (simp add: CAMPUS_MAPPING_metrics_def)
  have c: "contains (upper ''Sinaloa'') ''SIN''" by code_simp
  from known_display_names_resolve h
  have "case (''SIN'', ''Sinaloa'') of (code, name) \<Rightarrow>
          search_paren name = None \<and> extract_campus_from_region name = (code, name)"
    by (rule bspec)
  with h c show ?thesis by simp
qed

lemma takeWhile_append_stop: "\<not> P y \<Longrightarrow> takeWhile P (xs @ y # ys) = takeWhile P xs"
  by (induction xs) auto

lemma dropWhile_append_stop: "\<not> P y \<Longrightarrow> dropWhile P (xs @ y # ys) = dropWhile P xs @ y # ys"
  by (induction xs) auto

lemma case_append_head:
  "(case xs @ y # ys of [] \<Rightarrow> False | d # _ \<Rightarrow> P d) = (case xs of [] \<Rightarrow> P y | d # _ \<Rightarrow> P d)"
  by (cases xs) simp_all

lemma not_word_paren [simp]: "\<not> is_word CHR ''(''" "\<not> is_word CHR '')''"
  by (simp_all add: is_word_def cp_def)

lemma match_paren_at_token:
  assumes "t \<noteq> []" "\<forall>c\<in>set t. is_word c"
  shows "match_paren_at (CHR ''('' # t @ CHR '')'' # post) = Some t"
proof -
  have "takeWhile is_word (t @ CHR '')'' # post) = t"
    using assms(2) by (simp add: takeWhile_append_stop)
  moreover have "dropWhile is_word (t @ CHR '')'' # post) = CHR '')'' # post"
    using assms(2) by (simp add: dropWhile_append_stop)
  ultimately show ?thesis using assms(1) by (simp add: match_paren_at_def)
qed

lemma match_paren_at_extend:
  assumes "match_paren_at (c # cs) = None"
  shows "match_paren_at (c # cs @ CHR ''('' # rest) = None"
proof -
  have tw: "takeWhile is_word (cs @ CHR ''('' # rest) = takeWhile is_word cs"
    by (simp add: takeWhile_append_stop)
  have dw: "dropWhile is_word (cs @ CHR ''('' # rest) = dropWhile is_word cs @ CHR ''('' # rest"
    by (simp add: dropWhile_append_stop)
  have hd: "(case dropWhile is_word cs @ CHR ''('' # rest of [] \<Rightarrow> False | d # _ \<Rightarrow> d = CHR '')'')
            = (case dropWhile is_word cs of [] \<Rightarrow> False | d # _ \<Rightarrow> d = CHR '')'')"
    by (simp add: case_append_head cong: list.case_cong)
  have "match_paren_at (c # cs @ CHR ''('' # rest) = match_paren_at (c # cs)"
    by (simp add: match_paren_at_def tw dw hd)
  with assms show ?thesis by simp
qed

lemma search_paren_skip:
  "search_paren pre = None \<Longrightarrow>
   search_paren (pre @ CHR ''('' # rest) = search_paren (CHR ''('' # rest)"
proof (induction pre)
  case Nil
  then show ?case by simp
next
  case (Cons c cs)
  from Cons.prems have m: "match_paren_at (c # cs) = None" and s: "search_paren cs = None"
    by (auto split: option.splits)
  have "match_paren_at (c # cs @ CHR ''('' # rest) = None"
    using m by (rule match_paren_at_extend)
  then show ?case using Cons.IH [OF s] by simp
qed

lemma search_paren_first_token:
  assumes "search_paren pre = None" "t \<noteq> []" "\<forall>c\<in>set t. is_word c"
  shows "search_paren (pre @ ''('' @ t @ '')'' @ post) = Some t"
proof -
  have "search_paren (pre @ CHR ''('' # (t @ CHR '')'' # post))
          = search_paren (CHR ''('' # (t @ CHR '')'' # post))"
    using assms(1) by (rule search_paren_skip)
  also have "\<dots> = Some t"
    using match_paren_at_token [OF assms(2,3)] by simp
  finally show ?thesis by simp
qed

text \<open>
  Claim C10. Let the text be \<open>pre (t) post\<close>, where \<open>t\<close> is a non-empty run of word
  characters and no parenthesized token lies in \<open>pre\<close>.  The result is the upper-cased
  \<open>t\<close> with its table name, or with itself where it is no known code: neither \<open>pre\<close>
  nor \<open>post\<close>, whatever tokens \<open>post\<close> holds, has any part in it.
\<close>

theorem first_parenthesized_token_decides:
  assumes "search_paren pre = None" and "t \<noteq> []" and "\<forall>c\<in>set t. is_word c"
  shows "extract_campus_from_region (pre @ ''('' @ t @ '')'' @ post) =
           (upper t, case map_of CAMPUS_MAPPING_metrics (upper t) of
                       Some name \<Rightarrow> name | None \<Rightarrow> upper t)
         \<and> (upper t \<notin> set CampusID \<longrightarrow>
              extract_campus_from_region (pre @ ''('' @ t @ '')'' @ post) = (upper t, upper t))"
proof -
  have s: "search_paren (pre @ ''('' @ t @ '')'' @ post) = Some t"
    using assms by (rule search_paren_first_token)
  have 1: "extract_campus_from_region (pre @ ''('' @ t @ '')'' @ post) =
           (upper t, case map_of CAMPUS_MAPPING_metrics (upper t) of
                       Some name \<Rightarrow> name | None \<Rightarrow> upper t)"
    unfolding extract_campus_from_region_def s by (simp add: Let_def)
  have keys: "map fst CAMPUS_MAPPING_metrics = CampusID"
    by (simp add: CAMPUS_MAPPING_metrics_def CampusID_def)
  have "map_of CAMPUS_MAPPING_metrics (upper t) = None" if "upper t \<notin> set CampusID"
    using that unfolding keys [symmetric] by (simp add: map_of_eq_None_iff)
  with 1 show ?thesis by simp
qed

theorem first_parenthesized_token_decides_witness:
  "search_paren ''Reporte '' = None \<and> ''2024'' \<noteq> [] \<and> list_all is_word ''2024''
   \<and> upper ''2024'' \<notin> set CampusID
   \<and> extract_campus_from_region ''Reporte (2024) Campus Monterrey (MTY)'' = (''2024'', ''2024'')"
proof -
  have h1: "search_paren ''Reporte '' = None" by code_simp
  have h2: "''2024'' \<noteq> []" by simp
  have h3: "\<forall>c\<in>set ''2024''. is_word c" by (simp add: is_word_def cp_def)
  have u: "upper ''2024'' = ''2024''" by code_simp
  have h4: "upper ''2024'' \<notin> set CampusID" unfolding u by (simp add: CampusID_def)
  from first_parenthesized_token_decides [OF h1 h2 h3, of "'' Campus Monterrey (MTY)''"] h4
  have "extract_campus_from_region (''Reporte '' @ ''('' @ ''2024'' @ '')'' @ '' Campus Monterrey (MTY)'')
          = (upper ''2024'', upper ''2024'')"
    by blast
  then have "extract_campus_from_region ''Reporte (2024) Campus Monterrey (MTY)'' = (''2024'', ''2024'')"
    unfolding u by simp
  moreover from h3 have "list_all is_word ''2024''" by (simp only: list_all_iff)
  ultimately show ?thesis using h1 h2 h4 by blast
qed

section \<open>Properties of the metrics merge\<close>

lemma previous_lookup_from_error:
  "\<exists>p\<in>set items. REGION p = None \<Longrightarrow> previous_lookup_from m items = Inl KeyError"
  by (induction items arbitrary: m) (auto split: option.splits)

lemma previous_lookup_from_ok:
  "\<forall>p\<in>set items. REGION p \<noteq> None \<Longrightarrow>
   \<exists>m'. previous_lookup_from m items = Inr m'
        \<and> (\<forall>r. (\<forall>p\<in>set items. REGION p \<noteq> Some r) \<longrightarrow> m' r = m r)
        \<and> (\<forall>r p. m' r = Some p \<longrightarrow> p \<in> set items \<and> REGION p = Some r \<or> m r = Some p)"
proof (induction items arbitrary: m)
  case Nil
  then show ?case by simp
next
  case (Cons item items)
  from Cons.prems obtain r0 where r0: "REGION item = Some r0" by auto
  from Cons.prems have "\<forall>p\<in>set items. REGION p \<noteq> None" by simp
  from Cons.IH [OF this, of "m(r0 \<mapsto> item)"] obtain m' where
    m': "previous_lookup_from (m(r0 \<mapsto> item)) items = Inr m'"
    and keep: "\<forall>r. (\<forall>p\<in>set items. REGION p \<noteq> Some r) \<longrightarrow> m' r = (m(r0 \<mapsto> item)) r"
    and src: "\<forall>r p. m' r = Some p \<longrightarrow> p \<in> set items \<and> REGION p = Some r \<or> (m(r0 \<mapsto> item)) r = Some p"
    by blast
  have "previous_lookup_from m (item # items) = Inr m'" using r0 m' by simp
  moreover have "\<forall>r. (\<forall>p\<in>set (item # items). REGION p \<noteq> Some r) \<longrightarrow> m' r = m r"
    using keep r0 by auto
  moreover have "\<forall>r p. m' r = Some p \<longrightarrow> p \<in> set (item # items) \<and> REGION p = Some r \<or> m r = Some p"
  proof (intro allI impI)
    fix r p assume "m' r = Some p"
    with src have "p \<in> set items \<and> REGION p = Some r \<or> (m(r0 \<mapsto> item)) r = Some p" by blast
    then show "p \<in> set (item # items) \<and> REGION p = Some r \<or> m r = Some p"
      using r0 by (auto split: if_splits)
  qed
  ultimately show ?case by blast
qed

lemma resolve_empty: "extract_campus_from_region '''' = (''UNK'', '''')"
  by (simp add: extract_campus_from_region_def CAMPUS_MAPPING_metrics_def upper_def lower_def)

text \<open>
  Claim C5, as the code has it. When every previous line carries \<open>REGION\<close> (otherwise
  the merge stops with \<open>KeyError\<close>), the merge returns one entry
  for each current line, at the same position, made from that line alone: its identity is
  the resolution of the line's raw text and its current counters are the line's.  Entries
  are never merged, whatever codes their texts resolve to.  Where no previous line has
  exactly the raw text of the current line (so also where there are no previous lines),
  the four previous counters are 0, 0.0, 0 and 0.
\<close>

theorem one_entry_per_current_record:
  assumes "\<forall>p\<in>set previous_data. REGION p \<noteq> None"
  shows "\<exists>regions.
           process_metrics current_data previous_data = Inr regions
           \<and> length regions = length current_data
           \<and> (\<forall>i<length current_data.
                (campus_id (regions ! i), campus_name (regions ! i))
                   = extract_campus_from_region (get_or (REGION (current_data ! i)) '''')
                \<and> current_month (regions ! i) = metrics_of (current_data ! i)
                \<and> ((\<forall>p\<in>set previous_data. REGION p \<noteq> Some (get_or (REGION (current_data ! i)) ''''))
                     \<longrightarrow> post_comments_sum (previous_year_month (regions ! i)) = JInt 0
                       \<and> alcance_total (previous_year_month (regions ! i)) = JFloat 0
                       \<and> volumen_de_publicaciones (previous_year_month (regions ! i)) = JInt 0
                       \<and> interacciones_totales (previous_year_month (regions ! i)) = JInt 0))"
proof -
  from previous_lookup_from_ok [OF assms, of Map.empty] obtain lk where
    lk: "previous_lookup_from Map.empty previous_data = Inr lk"
    and keep: "\<forall>r. (\<forall>p\<in>set previous_data. REGION p \<noteq> Some r) \<longrightarrow> lk r = None"
    by auto
  let ?regions = "map (combine_region lk) current_data"
  have 1: "process_metrics current_data previous_data = Inr ?regions"
    by (simp add: process_metrics_def lk)
  have 2: "length ?regions = length current_data" by simp
  have 3: "\<forall>i<length current_data.
                (campus_id (?regions ! i), campus_name (?regions ! i))
                   = extract_campus_from_region (get_or (REGION (current_data ! i)) '''')
                \<and> current_month (?regions ! i) = metrics_of (current_data ! i)
                \<and> ((\<forall>p\<in>set previous_data. REGION p \<noteq> Some (get_or (REGION (current_data ! i)) ''''))
                     \<longrightarrow> post_comments_sum (previous_year_month (?regions ! i)) = JInt 0
                       \<and> alcance_total (previous_year_month (?regions ! i)) = JFloat 0
                       \<and> volumen_de_publicaciones (previous_year_month (?regions ! i)) = JInt 0
                       \<and> interacciones_totales (previous_year_month (?regions ! i)) = JInt 0)"
  proof (intro allI impI)
    fix i assume i: "i < length current_data"
    let ?c = "current_data ! i"
    let ?r = "get_or (REGION ?c) ''''"
    have nth: "?regions ! i = combine_region lk ?c" using i by simp
    have a: "(campus_id (combine_region lk ?c), campus_name (combine_region lk ?c)) = extract_campus_from_region ?r"
      by (simp add: combine_region_def Let_def split: prod.splits)
    have b: "current_month (combine_region lk ?c) = metrics_of ?c"
      by (simp add: combine_region_def Let_def split: prod.splits)
    have c: "(\<forall>p\<in>set previous_data. REGION p \<noteq> Some ?r) \<longrightarrow> previous_year_month (combine_region lk ?c) = zero_metrics"
      using keep by (simp add: combine_region_def Let_def split: prod.splits)
    show "(campus_id (?regions ! i), campus_name (?regions ! i))
                   = extract_campus_from_region ?r
                \<and> current_month (?regions ! i) = metrics_of ?c
                \<and> ((\<forall>p\<in>set previous_data. REGION p \<noteq> Some ?r)
                     \<longrightarrow> post_comments_sum (previous_year_month (?regions ! i)) = JInt 0
                       \<and> alcance_total (previous_year_month (?regions ! i)) = JFloat 0
                       \<and> volumen_de_publicaciones (previous_year_month (?regions ! i)) = JInt 0
                       \<and> interacciones_totales (previous_year_month (?regions ! i)) = JInt 0)"
      unfolding nth using a b c by (simp add: zero_metrics_def)
  qed
  from 1 2 3 show ?thesis by blast
qed

theorem one_entry_per_current_record_witness:
  "list_all (\<lambda>p. REGION p \<noteq> None)
     [\<lparr>REGION = Some ''Monterrey'', POST_COMMENTS__SUM = None, ALCANCE_TOTAL = None,
       VOLUMEN_DE_PUBLICACIONES = None, INTERACCIONES_TOTALES = Some (JInt 3)\<rparr>]
   \<and> (\<exists>regions.
        process_metrics
          [\<lparr>REGION = Some ''Campus Monterrey (MTY)'', POST_COMMENTS__SUM = None, ALCANCE_TOTAL = None,
            VOLUMEN_DE_PUBLICACIONES = None, INTERACCIONES_TOTALES = Some (JInt 500)\<rparr>,
           \<lparr>REGION = Some ''Monterrey'', POST_COMMENTS__SUM = None, ALCANCE_TOTAL = None,
            VOLUMEN_DE_PUBLICACIONES = None, INTERACCIONES_TOTALES = Some (JInt 7)\<rparr>]
          [\<lparr>REGION = Some ''Monterrey'', POST_COMMENTS__SUM = None, ALCANCE_TOTAL = None,
            VOLUMEN_DE_PUBLICACIONES = None, INTERACCIONES_TOTALES = Some (JInt 3)\<rparr>]
          = Inr regions
        \<and> length regions = 2
        \<and> interacciones_totales (current_month (regions ! 0)) = JInt 500
        \<and> interacciones_totales (previous_year_month (regions ! 0)) = JInt 0)"
proof -
  let ?prev = "[\<lparr>REGION = Some ''Monterrey'', POST_COMMENTS__SUM = None, ALCANCE_TOTAL = None,
                 VOLUMEN_DE_PUBLICACIONES = None, INTERACCIONES_TOTALES = Some (JInt 3)\<rparr>]"
  let ?cur = "[\<lparr>REGION = Some ''Campus Monterrey (MTY)'', POST_COMMENTS__SUM = None, ALCANCE_TOTAL = None,
            VOLUMEN_DE_PUBLICACIONES = None, INTERACCIONES_TOTALES = Some (JInt 500)\<rparr>,
           \<lparr>REGION = Some ''Monterrey'', POST_COMMENTS__SUM = None, ALCANCE_TOTAL = None,
            VOLUMEN_DE_PUBLICACIONES = None, INTERACCIONES_TOTALES = Some (JInt 7)\<rparr>]"
  have h: "\<forall>p\<in>set ?prev. REGION p \<noteq> None" by simp
  from one_entry_per_current_record [OF h, of ?cur] obtain regions where
    r: "process_metrics ?cur ?prev = Inr regions" and n: "length regions = length ?cur"
    and a: "\<forall>i<length ?cur.
                (campus_id (regions ! i), campus_name (regions ! i))
                   = extract_campus_from_region (get_or (REGION (?cur ! i)) '''')
                \<and> current_month (regions ! i) = metrics_of (?cur ! i)
                \<and> ((\<forall>p\<in>set ?prev. REGION p \<noteq> Some (get_or (REGION (?cur ! i)) ''''))
                     \<longrightarrow> post_comments_sum (previous_year_month (regions ! i)) = JInt 0
                       \<and> alcance_total (previous_year_month (regions ! i)) = JFloat 0
                       \<and> volumen_de_publicaciones (previous_year_month (regions ! i)) = JInt 0
                       \<and> interacciones_totales (previous_year_month (regions ! i)) = JInt 0)"
    by blast
  from a have "current_month (regions ! 0) = metrics_of (?cur ! 0)
      \<and> ((\<forall>p\<in>set ?prev. REGION p \<noteq> Some (get_or (REGION (?cur ! 0)) ''''))
                     \<longrightarrow> interacciones_totales (previous_year_month (regions ! 0)) = JInt 0)"
    by simp
  then have "interacciones_totales (current_month (regions ! 0)) = JInt 500
       \<and> interacciones_totales (previous_year_month (regions ! 0)) = JInt 0"
    by (simp add: get_or_def metrics_of_def)
  moreover from h have "list_all (\<lambda>p. REGION p \<noteq> None) ?prev" by (simp only: list_all_iff)
  ultimately show ?thesis using r n by simp
qed

text \<open>
  Claim C5 as written promises one entry for each current line on every input.  For one
  current line and one previous line that lacks \<open>REGION\<close> the merge stops with
  \<open>KeyError\<close> while it builds the lookup, and no entry is returned.
\<close>

theorem previous_without_region_counterexample:
  "length [\<lparr>REGION = Some ''Campus Monterrey (MTY)'', POST_COMMENTS__SUM = None,
            ALCANCE_TOTAL = None, VOLUMEN_DE_PUBLICACIONES = None,
            INTERACCIONES_TOTALES = Some (JInt 500)\<rparr>] = 1
   \<and> process_metrics
         [\<lparr>REGION = Some ''Campus Monterrey (MTY)'', POST_COMMENTS__SUM = None,
           ALCANCE_TOTAL = None, VOLUMEN_DE_PUBLICACIONES = None,
           INTERACCIONES_TOTALES = Some (JInt 500)\<rparr>]
         [\<lparr>REGION = None, POST_COMMENTS__SUM = Some (JInt 4), ALCANCE_TOTAL = None,
           VOLUMEN_DE_PUBLICACIONES = None, INTERACCIONES_TOTALES = Some (JInt 300)\<rparr>]
       = Inl KeyError"
  by (simp add: process_metrics_def)

text \<open>
  Claim C9. A previous line without \<open>REGION\<close> makes the whole merge fail with
  \<open>KeyError\<close>.  A current line without \<open>REGION\<close> is merged like any other, with the
  empty text as its raw text: its entry has the code \<open>UNK\<close>, the empty name and the
  line's counters.
\<close>

theorem missing_region_is_asymmetric:
  "((\<exists>p\<in>set previous_data. REGION p = None)
      \<longrightarrow> process_metrics current_data previous_data = Inl KeyError)
   \<and> ((\<forall>p\<in>set previous_data. REGION p \<noteq> None) \<and> i < length current_data
        \<and> REGION (current_data ! i) = None
      \<longrightarrow> (\<exists>regions. process_metrics current_data previous_data = Inr regions
             \<and> length regions = length current_data
             \<and> campus_id (regions ! i) = ''UNK''
             \<and> campus_name (regions ! i) = ''''
             \<and> current_month (regions ! i) = metrics_of (current_data ! i)))"
proof (intro conjI impI)
  assume "\<exists>p\<in>set previous_data. REGION p = None"
  then show "process_metrics current_data previous_data = Inl KeyError"
    by (simp add: process_metrics_def previous_lookup_from_error)
next
  assume a: "(\<forall>p\<in>set previous_data. REGION p \<noteq> None) \<and> i < length current_data
        \<and> REGION (current_data ! i) = None"
  then obtain lk where lk: "previous_lookup_from Map.empty previous_data = Inr lk"
    using previous_lookup_from_ok [of previous_data Map.empty] by blast
  let ?regions = "map (combine_region lk) current_data"
  have "process_metrics current_data previous_data = Inr ?regions"
    by (simp add: process_metrics_def lk)
  moreover have "?regions ! i = combine_region lk (current_data ! i)" using a by simp
  moreover have "campus_id (combine_region lk (current_data ! i)) = ''UNK''"
    "campus_name (combine_region lk (current_data ! i)) = ''''"
    "current_month (combine_region lk (current_data ! i)) = metrics_of (current_data ! i)"
    using a by (simp_all add: combine_region_def get_or_def resolve_empty)
  ultimately show "\<exists>regions. process_metrics current_data previous_data = Inr regions
             \<and> length regions = length current_data
             \<and> campus_id (regions ! i) = ''UNK''
             \<and> campus_name (regions ! i) = ''''
             \<and> current_month (regions ! i) = metrics_of (current_data ! i)"
    by simp
qed

theorem missing_region_is_asymmetric_witness:
  "process_metrics
     [\<lparr>REGION = Some ''Monterrey'', POST_COMMENTS__SUM = None, ALCANCE_TOTAL = None,
       VOLUMEN_DE_PUBLICACIONES = None, INTERACCIONES_TOTALES = None\<rparr>]
     [\<lparr>REGION = None, POST_COMMENTS__SUM = None, ALCANCE_TOTAL = None,
       VOLUMEN_DE_PUBLICACIONES = None, INTERACCIONES_TOTALES = None\<rparr>] = Inl KeyError
   \<and> (\<exists>regions.
        process_metrics
          [\<lparr>REGION = None, POST_COMMENTS__SUM = None, ALCANCE_TOTAL = None,
            VOLUMEN_DE_PUBLICACIONES = None, INTERACCIONES_TOTALES = Some (JInt 9)\<rparr>]
          [\<lparr>REGION = Some ''Monterrey'', POST_COMMENTS__SUM = None, ALCANCE_TOTAL = None,
            VOLUMEN_DE_PUBLICACIONES = None, INTERACCIONES_TOTALES = None\<rparr>] = Inr regions
        \<and> campus_id (regions ! 0) = ''UNK'' \<and> campus_name (regions ! 0) = ''''
        \<and> interacciones_totales (current_month (regions ! 0)) = JInt 9)"
proof -
  let ?with = "\<lparr>REGION = Some ''Monterrey'', POST_COMMENTS__SUM = None, ALCANCE_TOTAL = None,
       VOLUMEN_DE_PUBLICACIONES = None, INTERACCIONES_TOTALES = None\<rparr>"
  let ?without = "\<lparr>REGION = None, POST_COMMENTS__SUM = None, ALCANCE_TOTAL = None,
       VOLUMEN_DE_PUBLICACIONES = None, INTERACCIONES_TOTALES = None\<rparr>"
  let ?cur = "\<lparr>REGION = None, POST_COMMENTS__SUM = None, ALCANCE_TOTAL = None,
            VOLUMEN_DE_PUBLICACIONES = None, INTERACCIONES_TOTALES = Some (JInt 9)\<rparr>"
  have 1: "process_metrics [?with] [?without] = Inl KeyError"
    using missing_region_is_asymmetric [of "[?without]" "[?with]" 0] by simp
  have "\<exists>regions. process_metrics [?cur] [?with] = Inr regions
             \<and> length regions = length [?cur]
             \<and> campus_id (regions ! 0) = ''UNK''
             \<and> campus_name (regions ! 0) = ''''
             \<and> current_month (regions ! 0) = metrics_of ([?cur] ! 0)"
    using missing_region_is_asymmetric [of "[?with]" "[?cur]" 0] by simp
  then have 2: "\<exists>regions. process_metrics [?cur] [?with] = Inr regions
        \<and> campus_id (regions ! 0) = ''UNK'' \<and> campus_name (regions ! 0) = ''''
        \<and> interacciones_totales (current_month (regions ! 0)) = JInt 9"
    by (auto simp: metrics_of_def get_or_def)
  from 1 2 show ?thesis by simp
qed

section \<open>Properties of the score table parser\<close>

lemma set_cell_identity [simp]:
  "sc_campus_id (set_cell p k v c) = sc_campus_id c"
  "sc_campus_name (set_cell p k v c) = sc_campus_name c"
  by (simp_all add: set_cell_def)

lemma held_parse_row:
  "map (\<lambda>c. (sc_campus_id c, sc_campus_name c)) (held (parse_row st row)) =
   map (\<lambda>c. (sc_campus_id c, sc_campus_name c)) (held st)
   @ (if is_campus_row row
      then [(map_campus_name_to_id (strip (row ! 1)), strip (row ! 1))] else [])"
proof (cases "length row < 2")
  case True
  then show ?thesis by (simp add: parse_row_def is_campus_row_def)
next
  case long: False
  show ?thesis
  proof (cases "lower (strip (row ! 0)) = ''campus''")
    case True
    with long show ?thesis
      by (simp add: parse_row_def is_campus_row_def held_def Let_def split: option.splits)
  next
    case False
    with long have n: "\<not> is_campus_row row" by (simp add: is_campus_row_def)
    have "map (\<lambda>c. (sc_campus_id c, sc_campus_name c)) (held (parse_row st row)) =
          map (\<lambda>c. (sc_campus_id c, sc_campus_name c)) (held st)"
      using long False
      by (simp add: parse_row_def held_def Let_def split: option.splits)
    with n show ?thesis by simp
  qed
qed

lemma held_foldl_parse_row:
  "map (\<lambda>c. (sc_campus_id c, sc_campus_name c)) (held (foldl parse_row st rows)) =
   map (\<lambda>c. (sc_campus_id c, sc_campus_name c)) (held st)
   @ map (\<lambda>row. (map_campus_name_to_id (strip (row ! 1)), strip (row ! 1)))
       (filter is_campus_row rows)"
proof (induction rows arbitrary: st)
  case Nil
  then show ?case by simp
next
  case (Cons row rows)
  show ?case by (simp add: Cons.IH held_parse_row)
qed

lemma parse_campus_scores_csv_held:
  "parse_campus_scores_csv rows =
     held (foldl parse_row \<lparr>campuses = [], current_campus = None, current_platform = None\<rparr> rows)"
  by (simp add: parse_campus_scores_csv_def held_def Let_def split: option.splits)

text \<open>
  Claim C6, as the code has it. The parser returns one entry for each row that has at
  least two cells and whose first cell, trimmed and in lower case, reads \<open>campus\<close>; the
  entries come in the order of these rows, each with the trimmed second cell as its name
  and the code found for that name.  So the last campus is returned although no campus
  row follows it.  A row of fewer than two cells is skipped before its first cell is
  read.
\<close>

theorem one_entry_per_campus_row:
  "length (parse_campus_scores_csv rows) = length (filter is_campus_row rows)
   \<and> map sc_campus_name (parse_campus_scores_csv rows)
       = map (\<lambda>row. strip (row ! 1)) (filter is_campus_row rows)
   \<and> map sc_campus_id (parse_campus_scores_csv rows)
       = map (\<lambda>row. map_campus_name_to_id (strip (row ! 1))) (filter is_campus_row rows)"
proof -
  let ?out = "parse_campus_scores_csv rows"
  have e: "map (\<lambda>c. (sc_campus_id c, sc_campus_name c)) ?out =
           map (\<lambda>row. (map_campus_name_to_id (strip (row ! 1)), strip (row ! 1)))
             (filter is_campus_row rows)"
    unfolding parse_campus_scores_csv_held held_foldl_parse_row
    by (simp add: held_def)
  from e have "map snd (map (\<lambda>c. (sc_campus_id c, sc_campus_name c)) ?out) =
               map snd (map (\<lambda>row. (map_campus_name_to_id (strip (row ! 1)), strip (row ! 1)))
                 (filter is_campus_row rows))"
    by (rule arg_cong)
  then have names: "map sc_campus_name ?out = map (\<lambda>row. strip (row ! 1)) (filter is_campus_row rows)"
    by (simp add: comp_def)
  from e have "map fst (map (\<lambda>c. (sc_campus_id c, sc_campus_name c)) ?out) =
               map fst (map (\<lambda>row. (map_campus_name_to_id (strip (row ! 1)), strip (row ! 1)))
                 (filter is_campus_row rows))"
    by (rule arg_cong)
  then have ids: "map sc_campus_id ?out =
                  map (\<lambda>row. map_campus_name_to_id (strip (row ! 1))) (filter is_campus_row rows)"
    by (simp add: comp_def)
  from names have "length (map sc_campus_name ?out)
                   = length (map (\<lambda>row. strip (row ! 1)) (filter is_campus_row rows))"
    by (rule arg_cong)
  then have "length ?out = length (filter is_campus_row rows)" by simp
  with names ids show ?thesis by simp
qed

theorem one_entry_per_campus_row_witness:
  "filter is_campus_row
     [[''Campus'', ''Monterrey''], [''Facebook'', ''''], [''Visibilidad'', ''82''],
      [''campus''], ['' CAMPUS '', '' Puebla '']]
     = [[''Campus'', ''Monterrey''], ['' CAMPUS '', '' Puebla '']]
   \<and> map sc_campus_name
        (parse_campus_scores_csv
           [[''Campus'', ''Monterrey''], [''Facebook'', ''''], [''Visibilidad'', ''82''],
            [''campus''], ['' CAMPUS '', '' Puebla '']])
       = [''Monterrey'', ''Puebla'']"
proof -
  let ?rows = "[[''Campus'', ''Monterrey''], [''Facebook'', ''''], [''Visibilidad'', ''82''],
                [''campus''], ['' CAMPUS '', '' Puebla '']]"
  have f: "filter is_campus_row ?rows = [[''Campus'', ''Monterrey''], ['' CAMPUS '', '' Puebla '']]"
    by code_simp
  have s: "map (\<lambda>row. strip (row ! 1)) [[''Campus'', ''Monterrey''], ['' CAMPUS '', '' Puebla '']]
           = [''Monterrey'', ''Puebla'']"
    by code_simp
  from one_entry_per_campus_row [of ?rows]
  have "map sc_campus_name (parse_campus_scores_csv ?rows)
          = map (\<lambda>row. strip (row ! 1)) (filter is_campus_row ?rows)"
    by blast
  with f s show ?thesis by simp
qed

text \<open>Claim C6 as written counts every row whose first cell reads \<open>campus\<close>. The
  file with the single one-cell row \<open>campus\<close> has one such row and yields no entry.\<close>

theorem one_cell_campus_row_counterexample:
  "length (filter left_is_campus [[''campus'']]) = 1
   \<and> length (parse_campus_scores_csv [[''campus'']]) = 0"
  by (simp add: left_is_campus_def parse_campus_scores_csv_def parse_row_def
        strip_def lower_def is_space_def chr_lower_def cp_def)

section \<open>Properties of the publications pipeline\<close>

subsection \<open>Dictionaries in order of first use\<close>

lemma set_first_seen [simp]: "set (first_seen xs) = set xs"
  by (induction xs) auto

lemma distinct_first_seen [simp]: "distinct (first_seen xs)"
  by (induction xs) auto

lemma first_seen_snoc:
  "first_seen (xs @ [y]) = (if y \<in> set xs then first_seen xs else first_seen xs @ [y])"
  by (induction xs) auto

lemma dd_update_listed:
  assumes "distinct ks"
  shows "dd_update k g d0 (map (\<lambda>k'. (k', h k')) ks) =
           (if k \<in> set ks
            then map (\<lambda>k'. (k', if k' = k then g (h k') else h k')) ks
            else map (\<lambda>k'. (k', h k')) ks @ [(k, g d0)])"
  using assms
proof (induction ks)
  case Nil
  then show ?case by simp
next
  case (Cons a ks)
  show ?case
  proof (cases "a = k")
    case True
    with Cons.prems have "k \<notin> set ks" by simp
    then have "map (\<lambda>k'. (k', if k' = k then g (h k') else h k')) ks = map (\<lambda>k'. (k', h k')) ks"
      by (intro map_cong) auto
    with True show ?thesis by simp
  next
    case False
    with Cons show ?thesis by simp
  qed
qed

text \<open>Filing a list of keyed items one after the other groups them by key: the keys come
  in the order of their first occurrence, and the value of a key is built from the items
  of that key in their order.\<close>

lemma dd_update_foldl:
  "foldl (\<lambda>d kx. dd_update (fst kx) (upd (snd kx)) d0 d) [] kxs =
   map (\<lambda>k. (k, foldl (\<lambda>v x. upd x v) d0 (map snd (filter (\<lambda>kx. fst kx = k) kxs))))
     (first_seen (map fst kxs))"
proof (induction kxs rule: rev_induct)
  case Nil
  then show ?case by simp
next
  case (snoc kx kxs)
  let ?val = "\<lambda>kxs k. foldl (\<lambda>v x. upd x v) d0 (map snd (filter (\<lambda>kx. fst kx = k) kxs))"
  have new: "?val kxs (fst kx) = d0" if "fst kx \<notin> set (map fst kxs)"
  proof -
    have "fst e \<noteq> fst kx" if "e \<in> set kxs" for e
    proof
      assume "fst e = fst kx"
      moreover from \<open>e \<in> set kxs\<close> have "fst e \<in> set (map fst kxs)" by simp
      ultimately show False using \<open>fst kx \<notin> set (map fst kxs)\<close> by simp
    qed
    then have "filter (\<lambda>e. fst e = fst kx) kxs = []"
      by (simp add: filter_empty_conv)
    then show ?thesis by simp
  qed
  have "foldl (\<lambda>d kx. dd_update (fst kx) (upd (snd kx)) d0 d) [] (kxs @ [kx]) =
        dd_update (fst kx) (upd (snd kx)) d0 (map (\<lambda>k. (k, ?val kxs k)) (first_seen (map fst kxs)))"
    by (simp add: snoc.IH)
  also have "\<dots> = map (\<lambda>k. (k, ?val (kxs @ [kx]) k)) (first_seen (map fst (kxs @ [kx])))"
  proof (cases "fst kx \<in> set (map fst kxs)")
    case True
    then show ?thesis
      by (simp add: dd_update_listed first_seen_snoc)
  next
    case False
    with new have "?val kxs (fst kx) = d0" by simp
    moreover have "map (\<lambda>k. (k, ?val (kxs @ [kx]) k)) (first_seen (map fst kxs)) =
                   map (\<lambda>k. (k, ?val kxs k)) (first_seen (map fst kxs))"
      using False by (intro map_cong) auto
    ultimately show ?thesis using False
      by (simp add: dd_update_listed first_seen_snoc)
  qed
  finally show ?case .
qed

lemma foldl_snoc_all: "foldl (\<lambda>v x. v @ [x]) acc xs = acc @ xs"
  by (induction xs arbitrary: acc) simp_all

lemma file_post_foldl:
  "foldl (\<lambda>d e. file_post e d) [] pfs =
   map (\<lambda>p. (p, map snd (filter (\<lambda>e. fst e = p) pfs))) (first_seen (map fst pfs))"
proof -
  have "foldl (\<lambda>d e. file_post e d) [] pfs =
        foldl (\<lambda>d kx. dd_update (fst kx) ((\<lambda>x posts. posts @ [x]) (snd kx)) [] d) [] pfs"
    by (simp add: file_post_def)
  also have "\<dots> = map (\<lambda>k. (k, foldl (\<lambda>v x. (\<lambda>x posts. posts @ [x]) x v) []
                              (map snd (filter (\<lambda>kx. fst kx = k) pfs))))
                    (first_seen (map fst pfs))"
    by (rule dd_update_foldl)
  finally show ?thesis by (simp add: foldl_snoc_all)
qed

lemma file_entry_foldl:
  "foldl file_entry [] es =
   map (\<lambda>c. (c, map (\<lambda>p. (p, map snd (filter (\<lambda>e. fst e = p)
                                  (map snd (filter (\<lambda>e. fst e = c) es)))))
               (first_seen (map fst (map snd (filter (\<lambda>e. fst e = c) es))))))
     (first_seen (map fst es))"
proof -
  have "foldl file_entry [] es =
        foldl (\<lambda>d kx. dd_update (fst kx) (file_post (snd kx)) [] d) [] es"
    by (simp add: file_entry_def [abs_def])
  also have "\<dots> = map (\<lambda>k. (k, foldl (\<lambda>v x. file_post x v) []
                              (map snd (filter (\<lambda>kx. fst kx = k) es))))
                    (first_seen (map fst es))"
    by (rule dd_update_foldl)
  finally show ?thesis by (simp add: file_post_foldl)
qed

subsection \<open>The first loop files the kept publications\<close>

lemma group_publication_kept:
  "is_kept pub \<Longrightarrow>
   group_publication d pub = file_entry d (the (campus_of pub), the (platform_of pub), filtered_of pub)"
  by (auto simp: is_kept_def campus_of_def platform_of_def platform_of_network_def
        group_publication_def file_entry_def file_post_def filtered_of_def Let_def
        split: option.splits if_splits)

lemma group_publication_dropped:
  "\<not> is_kept pub \<Longrightarrow> group_publication d pub = d"
  by (auto simp: is_kept_def campus_of_def platform_of_def platform_of_network_def
        group_publication_def Let_def
        split: option.splits if_splits)

lemma foldl_group_publication:
  "foldl group_publication d publications_data = foldl file_entry d (entries publications_data)"
proof (induction publications_data arbitrary: d)
  case Nil
  then show ?case by (simp add: entries_def)
next
  case (Cons pub rest)
  show ?case
  proof (cases "is_kept pub")
    case True
    then show ?thesis
      using Cons.IH by (simp add: entries_def group_publication_kept)
  next
    case False
    then show ?thesis
      using Cons.IH by (simp add: entries_def group_publication_dropped)
  qed
qed

lemma entries_of_campus:
  "map snd (filter (\<lambda>e. fst e = c) (entries publications_data)) =
   map (\<lambda>pub. (the (platform_of pub), filtered_of pub))
     (filter (\<lambda>pub. campus_of pub = Some c \<and> platform_of pub \<noteq> None) publications_data)"
  by (induction publications_data) (auto simp: entries_def is_kept_def)

lemma platforms_of_entries:
  "map fst (map snd (filter (\<lambda>e. fst e = c) (entries publications_data))) =
   platforms_of publications_data c"
  by (simp add: entries_of_campus platforms_of_def comp_def)

lemma kept_of_entries:
  "map snd (filter (\<lambda>e. fst e = p) (map snd (filter (\<lambda>e. fst e = c) (entries publications_data)))) =
   kept_of publications_data c p"
  unfolding entries_of_campus kept_of_def
  by (induction publications_data) auto

lemma campuses_of_entries:
  "set (map fst (entries publications_data)) =
   {c. \<exists>pub\<in>set publications_data. is_kept pub \<and> campus_of pub = Some c}"
proof (intro set_eqI iffI)
  fix c assume "c \<in> set (map fst (entries publications_data))"
  then obtain pub where "pub \<in> set publications_data" "is_kept pub" "c = the (campus_of pub)"
    by (auto simp: entries_def)
  moreover from this have "campus_of pub = Some c" by (auto simp: is_kept_def)
  ultimately show "c \<in> {c. \<exists>pub\<in>set publications_data. is_kept pub \<and> campus_of pub = Some c}"
    by blast
next
  fix c assume "c \<in> {c. \<exists>pub\<in>set publications_data. is_kept pub \<and> campus_of pub = Some c}"
  then obtain pub where p: "pub \<in> set publications_data" "is_kept pub" "campus_of pub = Some c"
    by blast
  then have "(c, the (platform_of pub), filtered_of pub) \<in> set (entries publications_data)"
    by (force simp: entries_def)
  then have "fst (c, the (platform_of pub), filtered_of pub) \<in> fst ` set (entries publications_data)"
    by (rule imageI)
  then show "c \<in> set (map fst (entries publications_data))" by simp
qed

text \<open>The grouping that the first loop builds: the campuses in the order of their first
  kept publication, each with its platforms in the order of their first kept publication,
  each with its kept records in input order.\<close>

lemma grouping:
  "foldl group_publication [] publications_data =
   map (\<lambda>c. (c, map (\<lambda>p. (p, kept_of publications_data c p))
               (first_seen (platforms_of publications_data c))))
     (first_seen (map fst (entries publications_data)))"
  unfolding foldl_group_publication file_entry_foldl platforms_of_entries kept_of_entries ..

lemma campus_output_grouped:
  "campus_output (c, map (\<lambda>p. (p, kept p)) ps) =
   \<lparr>group_campus_id = c,
    publications = concat (map (\<lambda>p. if p = ''instagram'' \<or> p = ''facebook''
                                      then top_posts (kept p) else []) ps)\<rparr>"
proof -
  have "(\<lambda>(platform, posts).
           let limit = get_or (map_of platform_limits platform) 0
           in if limit > 0 then take limit (sorted_posts posts) else []) (p, kept p)
        = (if p = ''instagram'' \<or> p = ''facebook'' then top_posts (kept p) else [])" for p
    by (simp add: platform_limits_def get_or_def top_posts_def Let_def)
  then show ?thesis
    by (simp add: campus_output_def comp_def)
qed

lemma filter_publications_grouped:
  "filter_publications publications_data =
   map (\<lambda>c. \<lparr>group_campus_id = c,
             publications =
               concat (map (\<lambda>p. if p = ''instagram'' \<or> p = ''facebook''
                                 then top_posts (kept_of publications_data c p) else [])
                         (first_seen (platforms_of publications_data c)))\<rparr>)
     (first_seen (map fst (entries publications_data)))"
  by (simp add: filter_publications_def grouping campus_output_grouped comp_def)

subsection \<open>The platforms of a campus\<close>

lemma platform_of_network_cases:
  "platform_of_network n = Some p \<Longrightarrow> p = ''instagram'' \<or> p = ''facebook''"
  by (auto simp: platform_of_network_def split: if_splits)

lemma platforms_of_known:
  "set (platforms_of publications_data c) \<subseteq> {''instagram'', ''facebook''}"
  by (auto simp: platforms_of_def platform_of_def dest: platform_of_network_cases)

lemma kept_of_absent:
  "p \<notin> set (platforms_of publications_data c) \<Longrightarrow> kept_of publications_data c p = []"
proof -
  assume a: "p \<notin> set (platforms_of publications_data c)"
  have "\<not> (campus_of pub = Some c \<and> platform_of pub = Some p)"
    if "pub \<in> set publications_data" for pub
  proof
    assume k: "campus_of pub = Some c \<and> platform_of pub = Some p"
    with that have "pub \<in> set (filter (\<lambda>pub. campus_of pub = Some c \<and> platform_of pub \<noteq> None)
                               publications_data)"
      by simp
    then have "the (platform_of pub) \<in> set (platforms_of publications_data c)"
      unfolding platforms_of_def set_map by (rule imageI)
    with k a show False by simp
  qed
  then show ?thesis by (simp add: kept_of_def filter_empty_conv)
qed

lemma platforms_of_output_campus:
  "c \<in> set (map fst (entries publications_data)) \<Longrightarrow> platforms_of publications_data c \<noteq> []"
proof -
  assume "c \<in> set (map fst (entries publications_data))"
  then have "c \<in> {c. \<exists>pub\<in>set publications_data. is_kept pub \<and> campus_of pub = Some c}"
    by (simp only: campuses_of_entries)
  then obtain pub where "pub \<in> set publications_data" "is_kept pub" "campus_of pub = Some c"
    by blast
  then have "filter (\<lambda>pub. campus_of pub = Some c \<and> platform_of pub \<noteq> None) publications_data \<noteq> []"
    by (auto simp: filter_empty_conv is_kept_def)
  then show ?thesis by (simp add: platforms_of_def)
qed

lemma hd_first_seen: "xs \<noteq> [] \<Longrightarrow> hd (first_seen xs) = hd xs"
  by (cases xs) simp_all

lemma first_seen_Nil_iff [simp]: "first_seen xs = [] \<longleftrightarrow> xs = []"
  by (cases xs) simp_all

lemma two_keys:
  assumes "distinct ps" "set ps \<subseteq> {a, b}" "ps \<noteq> []"
  shows "ps = [a] \<or> ps = [b] \<or> ps = [a, b] \<or> ps = [b, a]"
proof (cases ps)
  case Nil
  with assms show ?thesis by simp
next
  case 1: (Cons x xs)
  show ?thesis
  proof (cases xs)
    case Nil
    with 1 assms show ?thesis by auto
  next
    case 2: (Cons y ys)
    show ?thesis
    proof (cases ys)
      case Nil
      with 1 2 assms show ?thesis by auto
    next
      case (Cons z zs)
      with 1 2 assms show ?thesis by auto
    qed
  qed
qed

text \<open>The list written for a campus: the best records of the platform of its first
  kept publication, then those of the other platform.\<close>

lemma publications_in_platform_order:
  assumes "platforms_of publications_data c \<noteq> []"
  shows "concat (map (\<lambda>p. if p = ''instagram'' \<or> p = ''facebook''
                          then top_posts (kept_of publications_data c p) else [])
                   (first_seen (platforms_of publications_data c))) =
         (if hd (platforms_of publications_data c) = ''instagram''
          then top_posts (kept_of publications_data c ''instagram'')
               @ top_posts (kept_of publications_data c ''facebook'')
          else top_posts (kept_of publications_data c ''facebook'')
               @ top_posts (kept_of publications_data c ''instagram''))"
proof -
  let ?ps = "first_seen (platforms_of publications_data c)"
  have d: "distinct ?ps" by simp
  have s: "set ?ps \<subseteq> {''instagram'', ''facebook''}" using platforms_of_known by simp
  have n: "?ps \<noteq> []" using assms by simp
  have h: "hd ?ps = hd (platforms_of publications_data c)" using assms by (rule hd_first_seen)
  have e: "top_posts (kept_of publications_data c p) = []" if "p \<notin> set ?ps" for p
    using that by (simp add: kept_of_absent top_posts_def sorted_posts_def)
  from two_keys [OF d s n]
  consider "?ps = [''instagram'']" | "?ps = [''facebook'']"
    | "?ps = [''instagram'', ''facebook'']" | "?ps = [''facebook'', ''instagram'']"
    by blast
  then show ?thesis
  proof cases
    case 1
    then have "top_posts (kept_of publications_data c ''facebook'') = []" by (intro e) simp
    with 1 h show ?thesis by simp
  next
    case 2
    then have "top_posts (kept_of publications_data c ''instagram'') = []" by (intro e) simp
    with 2 h show ?thesis by simp
  next
    case 3
    with h show ?thesis by simp
  next
    case 4
    with h show ?thesis by simp
  qed
qed

lemma output_group:
  assumes "g \<in> set (filter_publications publications_data)"
  shows "group_campus_id g \<in> set (map fst (entries publications_data))
         \<and> platforms_of publications_data (group_campus_id g) \<noteq> []
         \<and> publications g =
             (if hd (platforms_of publications_data (group_campus_id g)) = ''instagram''
              then top_posts (kept_of publications_data (group_campus_id g) ''instagram'')
                   @ top_posts (kept_of publications_data (group_campus_id g) ''facebook'')
              else top_posts (kept_of publications_data (group_campus_id g) ''facebook'')
                   @ top_posts (kept_of publications_data (group_campus_id g) ''instagram''))"
proof -
  from assms obtain c where c: "c \<in> set (map fst (entries publications_data))"
    and g: "g = \<lparr>group_campus_id = c,
                 publications =
                   concat (map (\<lambda>p. if p = ''instagram'' \<or> p = ''facebook''
                                     then top_posts (kept_of publications_data c p) else [])
                             (first_seen (platforms_of publications_data c)))\<rparr>"
    unfolding filter_publications_grouped by auto
  from c have n: "platforms_of publications_data c \<noteq> []" by (rule platforms_of_output_campus)
  from g have id: "group_campus_id g = c" by simp
  from g have "publications g =
                   concat (map (\<lambda>p. if p = ''instagram'' \<or> p = ''facebook''
                                     then top_posts (kept_of publications_data c p) else [])
                             (first_seen (platforms_of publications_data c)))" by simp
  with publications_in_platform_order [OF n] c n show ?thesis unfolding id by simp
qed

text \<open>
  Claim C1, as the code has it. The list written for a campus is the concatenation of
  its best kept records per platform, the platform of the campus's first kept publication
  first: Instagram before Facebook when that publication is an Instagram post, Facebook
  before Instagram when it is a Facebook post.
\<close>

theorem publications_follow_first_seen_platform:
  "\<forall>g \<in> set (filter_publications publications_data).
     platforms_of publications_data (group_campus_id g) \<noteq> []
     \<and> publications g =
         (if hd (platforms_of publications_data (group_campus_id g)) = ''instagram''
          then top_posts (kept_of publications_data (group_campus_id g) ''instagram'')
               @ top_posts (kept_of publications_data (group_campus_id g) ''facebook'')
          else top_posts (kept_of publications_data (group_campus_id g) ''facebook'')
               @ top_posts (kept_of publications_data (group_campus_id g) ''instagram''))"
  using output_group by blast

lemma filter_publications_facebook_first:
  "filter_publications facebook_first =
     [\<lparr>group_campus_id = ''GDL'',
       publications = [filtered_of (facebook_first ! 0), filtered_of (facebook_first ! 1)]\<rparr>]"
  by code_simp

theorem publications_follow_first_seen_platform_witness:
  "\<lparr>group_campus_id = ''GDL'',
    publications = [filtered_of (facebook_first ! 0), filtered_of (facebook_first ! 1)]\<rparr>
     \<in> set (filter_publications facebook_first)
   \<and> hd (platforms_of facebook_first ''GDL'') = ''facebook''
   \<and> [filtered_of (facebook_first ! 0), filtered_of (facebook_first ! 1)]
       = top_posts (kept_of facebook_first ''GDL'' ''facebook'')
         @ top_posts (kept_of facebook_first ''GDL'' ''instagram'')"
proof -
  let ?g = "\<lparr>group_campus_id = ''GDL'',
    publications = [filtered_of (facebook_first ! 0), filtered_of (facebook_first ! 1)]\<rparr>"
  have m: "?g \<in> set (filter_publications facebook_first)"
    by (simp add: filter_publications_facebook_first)
  have h: "hd (platforms_of facebook_first ''GDL'') = ''facebook''"
    by code_simp
  from publications_follow_first_seen_platform m
  have "platforms_of facebook_first (group_campus_id ?g) \<noteq> []
     \<and> publications ?g =
         (if hd (platforms_of facebook_first (group_campus_id ?g)) = ''instagram''
          then top_posts (kept_of facebook_first (group_campus_id ?g) ''instagram'')
               @ top_posts (kept_of facebook_first (group_campus_id ?g) ''facebook'')
          else top_posts (kept_of facebook_first (group_campus_id ?g) ''facebook'')
               @ top_posts (kept_of facebook_first (group_campus_id ?g) ''instagram''))"
    by (rule bspec)
  with h have "[filtered_of (facebook_first ! 0), filtered_of (facebook_first ! 1)]
       = top_posts (kept_of facebook_first ''GDL'' ''facebook'')
         @ top_posts (kept_of facebook_first ''GDL'' ''instagram'')"
    by simp
  with m h show ?thesis by blast
qed

text \<open>Claim C1 as written puts all Instagram entries before all Facebook entries
  whatever the order of arrival.  For the input \<open>facebook_first\<close> the list written for
  GDL holds the Facebook record and then the Instagram record.\<close>

theorem facebook_before_instagram_counterexample:
  "map group_campus_id (filter_publications facebook_first) = [''GDL'']
   \<and> map (map social_network \<circ> publications) (filter_publications facebook_first)
       = [[''Facebook'', ''Instagram'']]"
  by code_simp

subsection \<open>The best records of a platform\<close>

lemma set_top_posts: "set (top_posts posts) \<subseteq> set posts"
proof -
  have "set (take 4 (sorted_posts posts)) \<subseteq> set (sorted_posts posts)" by (rule set_take_subset)
  then show ?thesis by (simp add: top_posts_def sorted_posts_def)
qed

lemma length_top_posts: "length (top_posts posts) \<le> 4"
  by (simp add: top_posts_def)

lemma top_posts_descending:
  "sorted_wrt (\<lambda>x y. engagement_score x \<ge> engagement_score y) (top_posts posts)"
proof -
  have "sorted (map (\<lambda>x. - engagement_score x) (sorted_posts posts))"
    unfolding sorted_posts_def by (rule sorted_sort_key)
  then have "sorted_wrt (\<lambda>x y. engagement_score x \<ge> engagement_score y) (sorted_posts posts)"
    by (simp add: sorted_map)
  then show ?thesis unfolding top_posts_def by (rule sorted_wrt_take)
qed

lemma filter_take_prefix: "prefix (filter P (take n xs)) (filter P xs)"
proof -
  have "filter P xs = filter P (take n xs) @ filter P (drop n xs)"
    by (metis append_take_drop_id filter_append)
  then show ?thesis by (simp add: prefix_def)
qed

lemma top_posts_stable:
  "prefix (filter (\<lambda>x. engagement_score x = k) (top_posts posts))
          (filter (\<lambda>x. engagement_score x = k) posts)"
proof -
  have "filter (\<lambda>x. - engagement_score x = - k) (sorted_posts posts)
        = filter (\<lambda>x. - engagement_score x = - k) posts"
    unfolding sorted_posts_def by (rule sort_key_stable)
  then have "filter (\<lambda>x. engagement_score x = k) (sorted_posts posts)
             = filter (\<lambda>x. engagement_score x = k) posts"
    by simp
  then show ?thesis
    unfolding top_posts_def using filter_take_prefix [of "\<lambda>x. engagement_score x = k" 4 "sorted_posts posts"]
    by simp
qed

lemma top_posts_nonempty: "posts \<noteq> [] \<Longrightarrow> top_posts posts \<noteq> []"
proof -
  assume "posts \<noteq> []"
  then have "length (sorted_posts posts) \<noteq> 0" by (simp add: sorted_posts_def)
  then have "sorted_posts posts \<noteq> []" by simp
  then show ?thesis by (simp add: top_posts_def)
qed

lemma kept_of_source:
  assumes "x \<in> set (kept_of publications_data c p)"
  shows "\<exists>pub\<in>set publications_data.
           campus_of pub = Some c \<and> platform_of pub = Some p \<and> x = filtered_of pub"
  using assms by (auto simp: kept_of_def)

lemma kept_of_platform:
  assumes "x \<in> set (kept_of publications_data c p)"
  shows "platform_of_network (social_network x) = Some p"
proof -
  from kept_of_source [OF assms] obtain pub where
    "platform_of pub = Some p" "x = filtered_of pub" by blast
  then show ?thesis by (simp add: platform_of_def filtered_of_def)
qed

lemma on_platform_same:
  "on_platform p (top_posts (kept_of publications_data c p)) = top_posts (kept_of publications_data c p)"
proof -
  have "\<forall>x\<in>set (top_posts (kept_of publications_data c p)).
          platform_of_network (social_network x) = Some p"
    using set_top_posts kept_of_platform by blast
  then show ?thesis by (simp add: on_platform_def)
qed

lemma on_platform_other:
  assumes "p \<noteq> q"
  shows "on_platform p (top_posts (kept_of publications_data c q)) = []"
proof -
  have "\<forall>x\<in>set (top_posts (kept_of publications_data c q)).
          platform_of_network (social_network x) = Some q"
    using set_top_posts kept_of_platform by blast
  with assms have "\<forall>x\<in>set (top_posts (kept_of publications_data c q)).
          platform_of_network (social_network x) \<noteq> Some p"
    by simp
  then show ?thesis by (simp add: on_platform_def filter_empty_conv)
qed

lemma on_platform_append: "on_platform p (xs @ ys) = on_platform p xs @ on_platform p ys"
  by (simp add: on_platform_def)

lemma on_platform_output:
  assumes "g \<in> set (filter_publications publications_data)"
    and "p = ''instagram'' \<or> p = ''facebook''"
  shows "on_platform p (publications g)
         = top_posts (kept_of publications_data (group_campus_id g) p)"
proof -
  have ne: "''instagram'' \<noteq> ''facebook''" "''facebook'' \<noteq> ''instagram''" by simp_all
  from output_group [OF assms(1)]
  have "publications g = top_posts (kept_of publications_data (group_campus_id g) ''instagram'')
                   @ top_posts (kept_of publications_data (group_campus_id g) ''facebook'')
        \<or> publications g = top_posts (kept_of publications_data (group_campus_id g) ''facebook'')
                   @ top_posts (kept_of publications_data (group_campus_id g) ''instagram'')"
    by (simp split: if_splits)
  with assms(2) show ?thesis
    by (auto simp: on_platform_append on_platform_same on_platform_other [OF ne(1)]
          on_platform_other [OF ne(2)])
qed

lemma length_output_publications:
  assumes "g \<in> set (filter_publications publications_data)"
  shows "length (publications g) \<le> 8"
proof -
  from output_group [OF assms]
  have "length (publications g)
        = length (top_posts (kept_of publications_data (group_campus_id g) ''instagram''))
          + length (top_posts (kept_of publications_data (group_campus_id g) ''facebook''))"
    by (simp split: if_splits)
  moreover have "length (top_posts (kept_of publications_data (group_campus_id g) ''instagram'')) \<le> 4"
    by (rule length_top_posts)
  moreover have "length (top_posts (kept_of publications_data (group_campus_id g) ''facebook'')) \<le> 4"
    by (rule length_top_posts)
  ultimately show ?thesis by simp
qed

text \<open>
  Claim C3. In every group written, each platform has at most four records, so the
  group has at most eight; the records of a platform stand in non-increasing order of
  their engagement score; and among the records of one score those written are the first
  ones of the campus's kept records of that platform and score, in input order.
\<close>

theorem quota_and_stable_descending_order:
  "\<forall>g \<in> set (filter_publications publications_data).
     length (publications g) \<le> 8
     \<and> (\<forall>p \<in> {''instagram'', ''facebook''}.
          length (on_platform p (publications g)) \<le> 4
          \<and> sorted_wrt (\<lambda>x y. engagement_score x \<ge> engagement_score y)
               (on_platform p (publications g))
          \<and> (\<forall>k. prefix (filter (\<lambda>x. engagement_score x = k) (on_platform p (publications g)))
                     (filter (\<lambda>x. engagement_score x = k)
                        (kept_of publications_data (group_campus_id g) p))))"
proof (intro ballI conjI allI)
  fix g assume g: "g \<in> set (filter_publications publications_data)"
  then show "length (publications g) \<le> 8" by (rule length_output_publications)
  fix p :: string assume "p \<in> {''instagram'', ''facebook''}"
  then have p: "p = ''instagram'' \<or> p = ''facebook''" by simp
  note e = on_platform_output [OF g p]
  show "length (on_platform p (publications g)) \<le> 4"
    unfolding e by (rule length_top_posts)
  show "sorted_wrt (\<lambda>x y. engagement_score x \<ge> engagement_score y) (on_platform p (publications g))"
    unfolding e by (rule top_posts_descending)
  fix k
  show "prefix (filter (\<lambda>x. engagement_score x = k) (on_platform p (publications g)))
          (filter (\<lambda>x. engagement_score x = k) (kept_of publications_data (group_campus_id g) p))"
    unfolding e by (rule top_posts_stable)
qed

lemma filter_publications_six_instagram:
  "filter_publications six_instagram =
     [\<lparr>group_campus_id = ''GDL'',
       publications = map filtered_of
         [instagram_post ''b'' 50, instagram_post ''d'' 50, instagram_post ''e'' 40,
          instagram_post ''c'' 30]\<rparr>]"
  by code_simp

theorem quota_and_stable_descending_order_witness:
  "\<lparr>group_campus_id = ''GDL'',
    publications = map filtered_of
      [instagram_post ''b'' 50, instagram_post ''d'' 50, instagram_post ''e'' 40,
       instagram_post ''c'' 30]\<rparr> \<in> set (filter_publications six_instagram)
   \<and> ''instagram'' \<in> {''instagram'', ''facebook''}
   \<and> length (on_platform ''instagram'' (map filtered_of
      [instagram_post ''b'' 50, instagram_post ''d'' 50, instagram_post ''e'' 40,
       instagram_post ''c'' 30])) \<le> 4
   \<and> map engagement_score (map filtered_of
      [instagram_post ''b'' 50, instagram_post ''d'' 50, instagram_post ''e'' 40,
       instagram_post ''c'' 30]) = [50, 50, 40, 30]
   \<and> map engagement_score (kept_of six_instagram ''GDL'' ''instagram'') = [10, 50, 30, 50, 40, 30]"
proof -
  let ?ps = "map filtered_of
      [instagram_post ''b'' 50, instagram_post ''d'' 50, instagram_post ''e'' 40,
       instagram_post ''c'' 30]"
  let ?g = "\<lparr>group_campus_id = ''GDL'', publications = ?ps\<rparr>"
  have m: "?g \<in> set (filter_publications six_instagram)"
    by (simp add: filter_publications_six_instagram)
  have i: "''instagram'' \<in> {''instagram'', ''facebook''}" by simp
  from quota_and_stable_descending_order m
  have "length (publications ?g) \<le> 8
     \<and> (\<forall>p \<in> {''instagram'', ''facebook''}.
          length (on_platform p (publications ?g)) \<le> 4
          \<and> sorted_wrt (\<lambda>x y. engagement_score x \<ge> engagement_score y)
               (on_platform p (publications ?g))
          \<and> (\<forall>k. prefix (filter (\<lambda>x. engagement_score x = k) (on_platform p (publications ?g)))
                     (filter (\<lambda>x. engagement_score x = k)
                        (kept_of six_instagram (group_campus_id ?g) p))))"
    by (rule bspec)
  with i have l: "length (on_platform ''instagram'' (publications ?g)) \<le> 4" by blast
  have s: "map engagement_score ?ps = [50, 50, 40, 30]"
    by (simp add: filtered_of_def instagram_post_def get_or_def)
  have k: "map engagement_score (kept_of six_instagram ''GDL'' ''instagram'') = [10, 50, 30, 50, 40, 30]"
    by code_simp
  from m i l s k show ?thesis by simp
qed

subsection \<open>What is written comes from kept publications only\<close>

lemma is_kept_iff:
  "is_kept pub \<longleftrightarrow>
     search_campus (get_or (ACCOUNT pub) '''') \<noteq> None
     \<and> (contains (lower (get_or (SOCIAL_NETWORK pub) '''')) ''instagram''
        \<or> contains (lower (get_or (SOCIAL_NETWORK pub) '''')) ''facebook'')"
  by (simp add: is_kept_def campus_of_def platform_of_def platform_of_network_def)

lemma entries_filter_kept: "entries (filter is_kept publications_data) = entries publications_data"
  by (simp add: entries_def)

lemma filter_publications_kept_only:
  "filter_publications (filter is_kept publications_data) = filter_publications publications_data"
  by (simp add: filter_publications_def foldl_group_publication entries_filter_kept)

lemma output_campuses:
  "set (map group_campus_id (filter_publications publications_data)) =
   {c. \<exists>pub\<in>set publications_data. is_kept pub \<and> campus_of pub = Some c}"
proof -
  have "map group_campus_id (filter_publications publications_data)
        = first_seen (map fst (entries publications_data))"
    unfolding filter_publications_grouped by (simp add: comp_def)
  then show ?thesis using campuses_of_entries by simp
qed

lemma kept_of_present:
  assumes "p \<in> set (platforms_of publications_data c)"
  shows "kept_of publications_data c p \<noteq> []"
proof -
  from assms obtain pub where "pub \<in> set publications_data" "campus_of pub = Some c"
    "platform_of pub \<noteq> None" "p = the (platform_of pub)"
    by (auto simp: platforms_of_def)
  then have "pub \<in> set (filter (\<lambda>pub. campus_of pub = Some c \<and> platform_of pub = Some p)
                           publications_data)"
    by auto
  then have "filter (\<lambda>pub. campus_of pub = Some c \<and> platform_of pub = Some p) publications_data \<noteq> []"
    by (metis empty_iff empty_set)
  then show ?thesis by (simp add: kept_of_def)
qed

lemma output_publications_nonempty:
  assumes "g \<in> set (filter_publications publications_data)"
  shows "publications g \<noteq> []"
proof -
  let ?c = "group_campus_id g"
  from output_group [OF assms] have n: "platforms_of publications_data ?c \<noteq> []"
    and e: "publications g =
             (if hd (platforms_of publications_data ?c) = ''instagram''
              then top_posts (kept_of publications_data ?c ''instagram'')
                   @ top_posts (kept_of publications_data ?c ''facebook'')
              else top_posts (kept_of publications_data ?c ''facebook'')
                   @ top_posts (kept_of publications_data ?c ''instagram''))"
    by simp_all
  from n have h: "hd (platforms_of publications_data ?c) \<in> set (platforms_of publications_data ?c)"
    by simp
  then have k: "top_posts (kept_of publications_data ?c (hd (platforms_of publications_data ?c))) \<noteq> []"
    by (intro top_posts_nonempty kept_of_present)
  from h platforms_of_known
  have "hd (platforms_of publications_data ?c) = ''instagram''
        \<or> hd (platforms_of publications_data ?c) = ''facebook''"
    by blast
  then show ?thesis
  proof
    assume i: "hd (platforms_of publications_data ?c) = ''instagram''"
    with k have "top_posts (kept_of publications_data ?c ''instagram'') \<noteq> []" by simp
    with e i show ?thesis by simp
  next
    assume f: "hd (platforms_of publications_data ?c) = ''facebook''"
    with k have "top_posts (kept_of publications_data ?c ''facebook'') \<noteq> []" by simp
    with e f show ?thesis by simp
  qed
qed

lemma output_publication_source:
  assumes "g \<in> set (filter_publications publications_data)" and "x \<in> set (publications g)"
  shows "\<exists>pub\<in>set publications_data.
           is_kept pub \<and> campus_of pub = Some (group_campus_id g) \<and> x = filtered_of pub"
proof -
  let ?c = "group_campus_id g"
  from output_group [OF assms(1)] assms(2)
  have "x \<in> set (top_posts (kept_of publications_data ?c ''instagram''))
        \<or> x \<in> set (top_posts (kept_of publications_data ?c ''facebook''))"
    by (auto split: if_splits)
  then obtain p where "x \<in> set (top_posts (kept_of publications_data ?c p))" by blast
  with set_top_posts have "x \<in> set (kept_of publications_data ?c p)" by blast
  from kept_of_source [OF this] obtain pub where
    "pub \<in> set publications_data" "campus_of pub = Some ?c" "platform_of pub = Some p"
    "x = filtered_of pub"
    by blast
  then show ?thesis by (auto simp: is_kept_def)
qed

text \<open>
  Claim C8. A publication is kept exactly when its account matches the campus pattern
  and its \<open>SOCIAL_NETWORK\<close>, in lower case, contains \<open>instagram\<close> or \<open>facebook\<close>.
  Every record written is the record of a kept publication of the group's campus, so its
  \<open>SOCIAL_NETWORK\<close> contains one of the two names in some case.  The output is the same
  as for the input without the publications that are not kept.  A campus has a group
  exactly when one of its publications is kept, and no group is empty.
\<close>

theorem only_instagram_and_facebook_are_written:
  "(\<forall>pub. is_kept pub \<longleftrightarrow>
       search_campus (get_or (ACCOUNT pub) '''') \<noteq> None
       \<and> (contains (lower (get_or (SOCIAL_NETWORK pub) '''')) ''instagram''
          \<or> contains (lower (get_or (SOCIAL_NETWORK pub) '''')) ''facebook''))
   \<and> (\<forall>g \<in> set (filter_publications publications_data).
        publications g \<noteq> []
        \<and> (\<forall>x \<in> set (publications g).
             (contains (lower (social_network x)) ''instagram''
              \<or> contains (lower (social_network x)) ''facebook'')
             \<and> (\<exists>pub\<in>set publications_data.
                  is_kept pub \<and> campus_of pub = Some (group_campus_id g) \<and> x = filtered_of pub)))
   \<and> filter_publications publications_data = filter_publications (filter is_kept publications_data)
   \<and> (\<forall>c. c \<in> set (map group_campus_id (filter_publications publications_data))
          \<longleftrightarrow> (\<exists>pub\<in>set publications_data. is_kept pub \<and> campus_of pub = Some c))"
proof (intro conjI ballI allI)
  fix pub
  show "is_kept pub \<longleftrightarrow>
       search_campus (get_or (ACCOUNT pub) '''') \<noteq> None
       \<and> (contains (lower (get_or (SOCIAL_NETWORK pub) '''')) ''instagram''
          \<or> contains (lower (get_or (SOCIAL_NETWORK pub) '''')) ''facebook'')"
    by (rule is_kept_iff)
next
  fix g assume g: "g \<in> set (filter_publications publications_data)"
  then show "publications g \<noteq> []" by (rule output_publications_nonempty)
  fix x assume x: "x \<in> set (publications g)"
  from output_publication_source [OF g x] obtain pub where
    pub: "pub \<in> set publications_data" "is_kept pub"
      "campus_of pub = Some (group_campus_id g)" "x = filtered_of pub"
    by blast
  from pub(4) have "social_network x = get_or (SOCIAL_NETWORK pub) ''''"
    by (simp add: filtered_of_def)
  with pub(2) show "contains (lower (social_network x)) ''instagram''
              \<or> contains (lower (social_network x)) ''facebook''"
    by (simp add: is_kept_iff)
  from pub show "\<exists>pub\<in>set publications_data.
                  is_kept pub \<and> campus_of pub = Some (group_campus_id g) \<and> x = filtered_of pub"
    by blast
next
  show "filter_publications publications_data = filter_publications (filter is_kept publications_data)"
    by (simp add: filter_publications_kept_only)
next
  fix c
  show "c \<in> set (map group_campus_id (filter_publications publications_data))
          \<longleftrightarrow> (\<exists>pub\<in>set publications_data. is_kept pub \<and> campus_of pub = Some c)"
    unfolding output_campuses by simp
qed

lemma filter_publications_mixed_input:
  "filter_publications mixed_input =
     [\<lparr>group_campus_id = ''GDL'', publications = [filtered_of (instagram_post ''g'' 5)]\<rparr>]"
  by code_simp

theorem only_instagram_and_facebook_are_written_witness:
  "\<lparr>group_campus_id = ''GDL'', publications = [filtered_of (instagram_post ''g'' 5)]\<rparr>
     \<in> set (filter_publications mixed_input)
   \<and> filtered_of (instagram_post ''g'' 5) \<in> set [filtered_of (instagram_post ''g'' 5)]
   \<and> social_network (filtered_of (instagram_post ''g'' 5)) = ''Instagram''
   \<and> contains (lower (social_network (filtered_of (instagram_post ''g'' 5)))) ''instagram''
   \<and> campus_of (mixed_input ! 0) = Some ''MTY''
   \<and> \<not> is_kept (mixed_input ! 0)
   \<and> ''MTY'' \<notin> set (map group_campus_id (filter_publications mixed_input))"
proof -
  let ?x = "filtered_of (instagram_post ''g'' 5)"
  let ?g = "\<lparr>group_campus_id = ''GDL'', publications = [?x]\<rparr>"
  have m: "?g \<in> set (filter_publications mixed_input)"
    by (simp add: filter_publications_mixed_input)
  have x: "?x \<in> set (publications ?g)" by simp
  note t = only_instagram_and_facebook_are_written [of mixed_input]
  from t m have "\<forall>x \<in> set (publications ?g).
             (contains (lower (social_network x)) ''instagram''
              \<or> contains (lower (social_network x)) ''facebook'')
             \<and> (\<exists>pub\<in>set mixed_input.
                  is_kept pub \<and> campus_of pub = Some (group_campus_id ?g) \<and> x = filtered_of pub)"
    by blast
  with x have c: "contains (lower (social_network ?x)) ''instagram''
              \<or> contains (lower (social_network ?x)) ''facebook''"
    by blast
  have n: "social_network ?x = ''Instagram''"
    by (simp add: filtered_of_def instagram_post_def get_or_def)
  have nf: "\<not> contains (lower ''Instagram'') ''facebook''" by code_simp
  from c n nf have ci: "contains (lower (social_network ?x)) ''instagram''" by simp
  have c0: "campus_of (mixed_input ! 0) = Some ''MTY''" by code_simp
  have k0: "\<not> is_kept (mixed_input ! 0)" by code_simp
  have out: "''MTY'' \<notin> set (map group_campus_id (filter_publications mixed_input))"
    by (simp add: filter_publications_mixed_input)
  from m n ci c0 k0 out show ?thesis by simp
qed

end
